theory Spec2Isabelle
  imports Complex_Main "HOL-Library.Char_ord" "HOL-Library.List_Lexorder"
    "HOL-Library.Product_Lexorder" "HOL-Library.Sublist" "HOL-Library.AList"
begin

section \<open>Python exceptions\<close>

text \<open>
  The exception classes the three source files raise or catch. Every one of them is a
  subclass of Python's \<open>Exception\<close>, so a handler \<open>except Exception\<close> catches each
  value of this type. A function that may raise returns \<open>exn + 'a\<close>, \<open>Inl\<close> the exception.
\<close>

datatype exn =
    FitError | KeyError | ValueError | TypeError | RuntimeError
  | FileNotFoundError | FileExistsError | NotADirectoryError | OtherError string

section \<open>Birmingham/indicator\_Birmingham\_MO.py\<close>

subsection \<open>Data arrays\<close>

text \<open>
  A time stamp is a calendar year and a day of that year; a data array carries one real
  value per time stamp (several per day before the daily resampling) and its attribute
  dictionary. The label of an annual (\<open>YS\<close>, year start) bin is the first day of the year.
\<close>

type_synonym day = "int \<times> nat"

record dataarray =
  points :: "(day \<times> real) list"
  attrs :: "string \<rightharpoonup> string"

datatype agg = AggMean | AggMax | AggMin

text \<open>What \<open>spi\<close> returns: the computed index, or the empty \<open>xr.Dataset()\<close>.\<close>

datatype spi_result = Index dataarray | EmptyDataset

text \<open>
  The calls into xarray and xclim that the module makes. Each may raise.
  \<open>resample L a x\<close> is \<open>x.resample(time="D").a(keep_attrs=True)\<close>; the other fields are
  the xclim functions of the same names.
\<close>

record lib =
  resample :: "agg \<Rightarrow> dataarray \<Rightarrow> exn + dataarray"
  convert_units_to :: "dataarray \<Rightarrow> string \<Rightarrow> exn + dataarray"
  xc_wetdays :: "dataarray \<Rightarrow> string \<Rightarrow> string \<Rightarrow> exn + dataarray"
  xc_maximum_consecutive_wet_days :: "dataarray \<Rightarrow> string \<Rightarrow> string \<Rightarrow> exn + dataarray"
  xc_maximum_consecutive_dry_days :: "dataarray \<Rightarrow> string \<Rightarrow> string \<Rightarrow> exn + dataarray"
  xc_precip_accumulation :: "dataarray \<Rightarrow> string \<Rightarrow> exn + dataarray"
  xc_max_1day_precipitation_amount :: "dataarray \<Rightarrow> string \<Rightarrow> exn + dataarray"
  xc_standardized_precipitation_index :: "dataarray \<Rightarrow> string \<Rightarrow> exn + dataarray"
  xc_tx_max :: "dataarray \<Rightarrow> string \<Rightarrow> exn + dataarray"
  xc_tx_min :: "dataarray \<Rightarrow> string \<Rightarrow> exn + dataarray"
  xc_hot_spell_frequency :: "dataarray \<Rightarrow> string \<Rightarrow> nat \<Rightarrow> string \<Rightarrow> exn + dataarray"
  xc_tropical_nights :: "dataarray \<Rightarrow> string \<Rightarrow> exn + dataarray"
  xc_growing_season_length :: "dataarray \<Rightarrow> string \<Rightarrow> exn + dataarray"

subsection \<open>gdd\_baker\<close>

text \<open>
  The nested \<open>xr.where\<close> of \<open>gdd_baker\<close> at one day: \<open>tx\<close> and \<open>tn\<close> are that day's values
  of \<open>tasmax_daily\<close> and \<open>tasmin_daily\<close>, and \<open>tavg = (tasmax_daily + tasmin_daily) / 2\<close>.
\<close>

definition D :: "real \<Rightarrow> real \<Rightarrow> real \<Rightarrow> real" where
  "D tx tn tbase =
     (let tavg = (tx + tn) / 2 in
      if tx \<le> tbase then 0
      else if tn \<ge> tbase then 0.5 * (tx + tn) - tbase
      else if tavg > tbase then (tx - tbase) / 2 + (tbase - tn) / 4
      else (tx - tbase) / 4)"

text \<open>
  \<open>xr.where\<close> joins its arguments exactly: the two daily arrays must have the same time
  axis, and xarray raises \<open>ValueError\<close> otherwise.
\<close>

definition D_array :: "dataarray \<Rightarrow> dataarray \<Rightarrow> real \<Rightarrow> exn + (day \<times> real) list" where
  "D_array tasmax_daily tasmin_daily tbase =
     (if map fst (points tasmax_daily) = map fst (points tasmin_daily)
      then Inr (map (\<lambda>((d, tx), (d', tn)). (d, D tx tn tbase))
                  (zip (points tasmax_daily) (points tasmin_daily)))
      else Inl ValueError)"

text \<open>
  \<open>x.resample(time="YS").sum()\<close>: one bin for every calendar year from the first to the
  last year of the time axis, labelled by the first day of the year, holding the sum of
  the values of that year (zero for a year without values).
\<close>

definition year_sum :: "(day \<times> real) list \<Rightarrow> int \<Rightarrow> real" where
  "year_sum ps y = sum_list (map snd (filter (\<lambda>p. fst (fst p) = y) ps))"

definition resample_YS_sum :: "(day \<times> real) list \<Rightarrow> (day \<times> real) list" where
  "resample_YS_sum ps =
     (if ps = [] then []
      else map (\<lambda>y. ((y, 1), year_sum ps y))
             [Min (set (map (fst \<circ> fst) ps)) .. Max (set (map (fst \<circ> fst) ps))])"

definition gdd_attrs :: "string \<rightharpoonup> string" where
  "gdd_attrs = map_of
     [(''long_name'', ''Number of growing degree days''),
      (''description'',
       ''Annual Number of growing degree days calculated according to Baker et al (1980)''),
      (''units'', ''1''),
      (''cell_methods'', ''''),
      (''standard_name'', ''growing_degree_days'')]"

definition gdd_baker :: "lib \<Rightarrow> dataarray \<Rightarrow> dataarray \<Rightarrow> real \<Rightarrow> string \<Rightarrow> exn + dataarray" where
  "gdd_baker L tasmax tasmin tbase freq =
     (case resample L AggMax tasmax of Inl e \<Rightarrow> Inl e | Inr tasmax_daily0 \<Rightarrow>
     (case convert_units_to L tasmax_daily0 ''degC'' of Inl e \<Rightarrow> Inl e | Inr tasmax_daily \<Rightarrow>
     (case resample L AggMin tasmin of Inl e \<Rightarrow> Inl e | Inr tasmin_daily0 \<Rightarrow>
     (case convert_units_to L tasmin_daily0 ''degC'' of Inl e \<Rightarrow> Inl e | Inr tasmin_daily \<Rightarrow>
     (case D_array tasmax_daily tasmin_daily tbase of Inl e \<Rightarrow> Inl e | Inr Ds \<Rightarrow>
        Inr \<lparr>points = resample_YS_sum Ds, attrs = gdd_attrs\<rparr>)))))"

text \<open>
  The degree-day rule and the annual sum as the specification words them, to compare
  with \<open>D\<close> and \<open>resample_YS_sum\<close>: \<open>annual_sum_spec days tmax tmin tbase y\<close> adds the
  daily value over the days of the year \<open>y\<close>, day by day through the time axis.
\<close>

definition D_spec :: "real \<Rightarrow> real \<Rightarrow> real \<Rightarrow> real" where
  "D_spec tmax tmin tbase =
     (if tmax \<le> tbase then 0
      else if tmin \<ge> tbase then (tmax + tmin) / 2 - tbase
      else if (tmax + tmin) / 2 > tbase then (tmax - tbase) / 2 + (tbase - tmin) / 4
      else (tmax - tbase) / 4)"

definition annual_sum_spec :: "day list \<Rightarrow> real list \<Rightarrow> real list \<Rightarrow> real \<Rightarrow> int \<Rightarrow> real" where
  "annual_sum_spec days tmax tmin tbase y =
     sum_list (map (\<lambda>i. D_spec (tmax ! i) (tmin ! i) tbase)
                (filter (\<lambda>i. fst (days ! i) = y) [0..<length days]))"

definition years_spec :: "day list \<Rightarrow> int list" where
  "years_spec days =
     (if days = [] then [] else [Min (set (map fst days)) .. Max (set (map fst days))])"

subsection \<open>The other indicators\<close>

text \<open>
  Each function first brings its input to daily resolution and then calls one xclim
  indicator. An exception raised by a library call leaves the function at once, except
  inside the \<open>try\<close> of \<open>spi\<close>. Default argument values (\<open>freq="YS"\<close>, \<open>tbase=10\<close>, ...)
  are supplied by the caller.
\<close>

definition wetdays :: "lib \<Rightarrow> dataarray \<Rightarrow> string \<Rightarrow> string \<Rightarrow> exn + dataarray" where
  "wetdays L pr thresh freq =
     (case resample L AggMean pr of Inl e \<Rightarrow> Inl e | Inr pr_daily \<Rightarrow>
        xc_wetdays L pr_daily thresh freq)"

definition cwd :: "lib \<Rightarrow> dataarray \<Rightarrow> string \<Rightarrow> string \<Rightarrow> exn + dataarray" where
  "cwd L pr thresh freq =
     (case resample L AggMean pr of Inl e \<Rightarrow> Inl e | Inr pr_daily \<Rightarrow>
        xc_maximum_consecutive_wet_days L pr_daily thresh freq)"

definition cdd :: "lib \<Rightarrow> dataarray \<Rightarrow> string \<Rightarrow> string \<Rightarrow> exn + dataarray" where
  "cdd L pr thresh freq =
     (case resample L AggMean pr of Inl e \<Rightarrow> Inl e | Inr pr_daily \<Rightarrow>
        xc_maximum_consecutive_dry_days L pr_daily thresh freq)"

definition prcptot :: "lib \<Rightarrow> dataarray \<Rightarrow> string \<Rightarrow> exn + dataarray" where
  "prcptot L pr freq =
     (case resample L AggMean pr of Inl e \<Rightarrow> Inl e | Inr pr_daily \<Rightarrow>
        xc_precip_accumulation L pr_daily freq)"

definition rx1day :: "lib \<Rightarrow> dataarray \<Rightarrow> string \<Rightarrow> exn + dataarray" where
  "rx1day L pr freq =
     (case resample L AggMean pr of Inl e \<Rightarrow> Inl e | Inr pr_daily \<Rightarrow>
        xc_max_1day_precipitation_amount L pr_daily freq)"

text \<open>
  \<open>spi\<close>: the resampling stands before the \<open>try\<close>; the handler is \<open>except FitError\<close>, so
  any other exception of the index computation leaves the function.
\<close>

definition spi :: "lib \<Rightarrow> dataarray \<Rightarrow> string \<Rightarrow> exn + spi_result" where
  "spi L pr freq =
     (case resample L AggMean pr of Inl e \<Rightarrow> Inl e | Inr pr_daily \<Rightarrow>
     (case xc_standardized_precipitation_index L pr_daily freq of
        Inr da \<Rightarrow> Inr (Index da)
      | Inl e \<Rightarrow> if e = FitError then Inr EmptyDataset else Inl e))"

definition txx :: "lib \<Rightarrow> dataarray \<Rightarrow> string \<Rightarrow> exn + dataarray" where
  "txx L tasmax freq =
     (case resample L AggMax tasmax of Inl e \<Rightarrow> Inl e | Inr tasmax_daily \<Rightarrow>
     (case xc_tx_max L tasmax_daily freq of Inl e \<Rightarrow> Inl e | Inr da \<Rightarrow>
        convert_units_to L da ''degC''))"

definition txn :: "lib \<Rightarrow> dataarray \<Rightarrow> string \<Rightarrow> exn + dataarray" where
  "txn L tasmax freq =
     (case resample L AggMax tasmax of Inl e \<Rightarrow> Inl e | Inr tasmax_daily \<Rightarrow>
     (case xc_tx_min L tasmax_daily freq of Inl e \<Rightarrow> Inl e | Inr da \<Rightarrow>
        convert_units_to L da ''degC''))"

record hot_spell_entry =
  name :: string
  thresh :: string
  window :: nat

definition hot_spell :: "string \<rightharpoonup> hot_spell_entry" where
  "hot_spell = map_of
     [(''summer'', \<lparr>name = ''summer_days'', thresh = ''25 degC'', window = 1\<rparr>),
      (''hot'', \<lparr>name = ''hot_days'', thresh = ''30 degC'', window = 1\<rparr>),
      (''heatwave'', \<lparr>name = ''heatwave_spell'', thresh = ''27 degC'', window = 3\<rparr>)]"

text \<open>
  \<open>hot_spell_frequency\<close>: the statement order of the source is the resampling, then the
  subscripts \<open>hot_spell[hot_spell_type]\<close> among the arguments of the xclim call (a missing
  key raises \<open>KeyError\<close>), then the call, then the assignment to \<open>long_name\<close>.
\<close>

definition hot_spell_frequency :: "lib \<Rightarrow> dataarray \<Rightarrow> string \<Rightarrow> string \<Rightarrow> exn + dataarray" where
  "hot_spell_frequency L tasmax hot_spell_type freq =
     (case resample L AggMax tasmax of Inl e \<Rightarrow> Inl e | Inr tasmax_daily \<Rightarrow>
     (case hot_spell hot_spell_type of None \<Rightarrow> Inl KeyError | Some h \<Rightarrow>
     (case xc_hot_spell_frequency L tasmax_daily (thresh h) (window h) freq of
        Inl e \<Rightarrow> Inl e
      | Inr da \<Rightarrow> Inr (da\<lparr>attrs := (attrs da)(''long_name'' \<mapsto> name h)\<rparr>))))"

definition tropical_nights :: "lib \<Rightarrow> dataarray \<Rightarrow> string \<Rightarrow> exn + dataarray" where
  "tropical_nights L tasmin freq =
     (case resample L AggMax tasmin of Inl e \<Rightarrow> Inl e | Inr tasmin_daily \<Rightarrow>
        xc_tropical_nights L tasmin_daily freq)"

definition growing_season_length :: "lib \<Rightarrow> dataarray \<Rightarrow> string \<Rightarrow> exn + dataarray" where
  "growing_season_length L tas freq =
     (case resample L AggMean tas of Inl e \<Rightarrow> Inl e | Inr tas_daily \<Rightarrow>
     (case xc_growing_season_length L tas_daily freq of Inl e \<Rightarrow> Inl e | Inr da \<Rightarrow>
        Inr (da\<lparr>attrs := (attrs da)(''long_name'' \<mapsto> ''Growing season length'')\<rparr>)))"

subsection \<open>The daily resampling of xarray\<close>

text \<open>
  \<open>x.resample(time="D").max()\<close> (or \<open>min\<close>, \<open>mean\<close>) on a well-formed array: the days in
  ascending order, each with the aggregate of the samples of that day, the attributes
  kept. xarray also gives a day without samples between the first and the last day a NaN
  bin; the annual sum and the threshold counts skip NaN, so the model leaves those bins
  out. \<open>daily F x\<close> says the same through the set of a day's samples.
\<close>

definition agg_apply :: "agg \<Rightarrow> real list \<Rightarrow> real" where
  "agg_apply a vs =
     (case a of AggMean \<Rightarrow> sum_list vs / real (length vs)
      | AggMax \<Rightarrow> fold max (tl vs) (hd vs)
      | AggMin \<Rightarrow> fold min (tl vs) (hd vs))"

definition xr_resample :: "agg \<Rightarrow> dataarray \<Rightarrow> exn + dataarray" where
  "xr_resample a x =
     Inr (x\<lparr>points := map (\<lambda>d. (d, agg_apply a (map snd (filter (\<lambda>p. fst p = d) (points x)))))
                         (sort (remdups (map fst (points x))))\<rparr>)"

definition daily :: "(real set \<Rightarrow> real) \<Rightarrow> dataarray \<Rightarrow> dataarray" where
  "daily F x =
     x\<lparr>points := map (\<lambda>d. (d, F {v. (d, v) \<in> set (points x)}))
                    (sort (remdups (map fst (points x))))\<rparr>"

text \<open>
  A library instance to run the functions on concrete data: xarray's resampling as
  above, data that is already in the requested units, xclim's \<open>tropical_nights\<close> (the
  count per year of the days above 20 degC); the precipitation index and the spell
  frequency stand in by handing back the daily array they are given, and the indicators
  that no example runs raise. \<open>broken_axis_lib\<close> is the library as it answers for an input
  whose time axis is not datetime-like: the resampling raises \<open>TypeError\<close>.
\<close>

definition example_lib :: lib where
  "example_lib =
     \<lparr>resample = xr_resample,
      convert_units_to = (\<lambda>x u. Inr x),
      xc_wetdays = (\<lambda>x t f. Inl (OtherError ''not modelled'')),
      xc_maximum_consecutive_wet_days = (\<lambda>x t f. Inl (OtherError ''not modelled'')),
      xc_maximum_consecutive_dry_days = (\<lambda>x t f. Inl (OtherError ''not modelled'')),
      xc_precip_accumulation = (\<lambda>x f. Inl (OtherError ''not modelled'')),
      xc_max_1day_precipitation_amount = (\<lambda>x f. Inl (OtherError ''not modelled'')),
      xc_standardized_precipitation_index = (\<lambda>x f. Inr x),
      xc_tx_max = (\<lambda>x f. Inl (OtherError ''not modelled'')),
      xc_tx_min = (\<lambda>x f. Inl (OtherError ''not modelled'')),
      xc_hot_spell_frequency = (\<lambda>x t w f. Inr x),
      xc_tropical_nights =
        (\<lambda>x f. Inr (x\<lparr>points :=
           resample_YS_sum (map (\<lambda>(d, v). (d, if v > 20 then 1 else 0)) (points x))\<rparr>)),
      xc_growing_season_length = (\<lambda>x f. Inl (OtherError ''not modelled''))\<rparr>"

definition broken_axis_lib :: lib where
  "broken_axis_lib = example_lib\<lparr>resample := (\<lambda>a x. Inl TypeError)\<rparr>"

section \<open>notebooks/\_lib/paths.py\<close>

text \<open>
  The file system is a tree: a directory lists its entries by name. A path is the list of
  its components from the root of the file system (\<open>Path.parts\<close> without the anchor).
  \<open>wf_node\<close> says that the names within each directory are distinct, as in every real
  file system.
\<close>

type_synonym path = "string list"

datatype node = File | Dir "(string \<times> node) list"

fun lookup :: "node \<Rightarrow> path \<Rightarrow> node option" where
  "lookup n [] = Some n"
| "lookup File (x # xs) = None"
| "lookup (Dir es) (x # xs) = (case map_of es x of None \<Rightarrow> None | Some c \<Rightarrow> lookup c xs)"

definition is_dir :: "node \<Rightarrow> path \<Rightarrow> bool" where
  "is_dir fs p = (case lookup fs p of Some (Dir es) \<Rightarrow> True | _ \<Rightarrow> False)"

fun wf_node :: "node \<Rightarrow> bool" where
  "wf_node File = True"
| "wf_node (Dir es) = (distinct (map fst es) \<and> list_all (\<lambda>e. wf_node (snd e)) es)"

text \<open>
  The patterns the model of \<open>Path.rglob\<close> covers are the plain ones: one path component
  (not empty, not \<open>.\<close> or \<open>..\<close>, without the separator \<open>/\<close>), without a bracket
  expression and without \<open>**\<close>. For the other patterns \<open>Path.rglob\<close> does something else
  (a character class for \<open>[...]\<close>, the directory itself for the empty pattern, a path of
  several components for a pattern with a separator, \<open>ValueError\<close> or
  \<open>NotImplementedError\<close> for \<open>a**b\<close> or an absolute pattern), and \<open>glob_match\<close> and
  \<open>rglob_node\<close> below do not speak for them.
\<close>

fun double_star :: "string \<Rightarrow> bool" where
  "double_star (a # b # cs) = (a = CHR ''*'' \<and> b = CHR ''*'' \<or> double_star (b # cs))"
| "double_star cs = False"

definition plain_basename :: "string \<Rightarrow> bool" where
  "plain_basename b \<longleftrightarrow>
     b \<noteq> [] \<and> b \<noteq> ''.'' \<and> b \<noteq> ''..'' \<and>
     CHR ''/'' \<notin> set b \<and> CHR ''['' \<notin> set b \<and> \<not> double_star b"

text \<open>
  The name test of \<open>Path.rglob\<close> for a plain pattern: \<open>*\<close> stands for any run of
  characters, \<open>?\<close> for one character, every other character for itself.
\<close>

fun glob_match :: "string \<Rightarrow> string \<Rightarrow> bool" where
  "glob_match [] s = (s = [])"
| "glob_match (p # ps) [] = (p = CHR ''*'' \<and> glob_match ps [])"
| "glob_match (p # ps) (c # cs) =
     (if p = CHR ''*'' then glob_match ps (c # cs) \<or> glob_match (p # ps) cs
      else (p = CHR ''?'' \<or> p = c) \<and> glob_match ps cs)"

text \<open>
  \<open>d.rglob(pattern)\<close> for a plain pattern: every entry below \<open>d\<close>, at any depth, whose name
  matches; first the entries of a directory, then those of its subdirectories. Nothing
  when \<open>d\<close> is not a directory.
\<close>

fun rglob_node :: "string \<Rightarrow> path \<Rightarrow> node \<Rightarrow> path list" where
  "rglob_node pat p File = []"
| "rglob_node pat p (Dir es) =
     map (\<lambda>e. p @ [fst e]) (filter (\<lambda>e. glob_match pat (fst e)) es)
     @ concat (map (\<lambda>e. rglob_node pat (p @ [fst e]) (snd e)) es)"

definition rglob :: "node \<Rightarrow> string \<Rightarrow> path \<Rightarrow> path list" where
  "rglob fs pat d = (case lookup fs d of None \<Rightarrow> [] | Some n \<Rightarrow> rglob_node pat d n)"

definition ignore_parts :: "string set" where
  "ignore_parts = {''outputs'', ''.git'', ''.ipynb_checkpoints'', ''.cache''}"

definition iter_indicators_dirs :: "node \<Rightarrow> path \<Rightarrow> path list" where
  "iter_indicators_dirs fs root' =
     sort (remdups (filter (\<lambda>p. is_dir fs p \<and> set p \<inter> ignore_parts = {})
                      (rglob fs ''INDICATORS'' root')))"

definition iter_indicator_files :: "node \<Rightarrow> string \<Rightarrow> path \<Rightarrow> path list" where
  "iter_indicator_files fs pattern root' =
     concat (map (\<lambda>d. rglob fs pattern d) (iter_indicators_dirs fs root'))"

definition resolve_indicator_by_basename :: "node \<Rightarrow> string \<Rightarrow> path \<Rightarrow> exn + path" where
  "resolve_indicator_by_basename fs basename root' =
     (let hits = iter_indicator_files fs basename root' in
      if hits = [] then Inl FileNotFoundError
      else if length hits > 1 then Inl FileExistsError
      else Inr (hd hits))"

subsection \<open>Importing the module\<close>

text \<open>
  \<open>find_repo_root\<close> walks from the start directory (already resolved; the current
  directory by default) through its parents, nearest first, to the first one that holds
  an entry \<open>.git\<close>, and raises \<open>RuntimeError\<close> when there is none.
\<close>

definition find_repo_root :: "node \<Rightarrow> path \<Rightarrow> exn + path" where
  "find_repo_root fs start =
     (case List.find (\<lambda>parent. lookup fs (parent @ [''.git'']) \<noteq> None)
             (map (\<lambda>k. take k start) (rev [0..<Suc (length start)])) of
        Some parent \<Rightarrow> Inr parent
      | None \<Rightarrow> Inl RuntimeError)"

text \<open>
  \<open>p.mkdir(parents=True, exist_ok=True)\<close> on the tree: missing directories along the path
  are created, existing directories are kept, and a file in the way raises
  (\<open>FileExistsError\<close> at the end of the path, \<open>NotADirectoryError\<close> inside it).
\<close>

fun mkdir :: "node \<Rightarrow> path \<Rightarrow> exn + node" where
  "mkdir File [] = Inl FileExistsError"
| "mkdir (Dir es) [] = Inr (Dir es)"
| "mkdir File (x # xs) = Inl NotADirectoryError"
| "mkdir (Dir es) (x # xs) =
     (case map_of es x of
        None \<Rightarrow> (case mkdir (Dir []) xs of Inl e \<Rightarrow> Inl e | Inr c \<Rightarrow> Inr (Dir (es @ [(x, c)])))
      | Some c \<Rightarrow> (case mkdir c xs of Inl e \<Rightarrow> Inl e | Inr c' \<Rightarrow> Inr (Dir (AList.update x c' es))))"

text \<open>
  The module level of \<open>paths.py\<close>: the constants it binds, and the two \<open>mkdir\<close> calls
  that run when the module is imported. The result is the file system afterwards and
  either the module or the exception that stopped the import.
\<close>

record paths_module =
  REPO_ROOT :: path
  DATA_ROOT :: path
  OUT_ROOT :: path
  TABLE_DIR :: path
  FIG_DIR :: path

definition import_paths :: "node \<Rightarrow> path \<Rightarrow> node \<times> (exn + paths_module)" where
  "import_paths fs start =
     (case find_repo_root fs start of Inl e \<Rightarrow> (fs, Inl e) | Inr r \<Rightarrow>
     (case mkdir fs (r @ [''outputs'', ''tables'']) of Inl e \<Rightarrow> (fs, Inl e) | Inr fs1 \<Rightarrow>
     (case mkdir fs1 (r @ [''outputs'', ''figures'']) of Inl e \<Rightarrow> (fs1, Inl e) | Inr fs2 \<Rightarrow>
        (fs2, Inr \<lparr>REPO_ROOT = r, DATA_ROOT = r, OUT_ROOT = r @ [''outputs''],
                   TABLE_DIR = r @ [''outputs'', ''tables''],
                   FIG_DIR = r @ [''outputs'', ''figures'']\<rparr>))))"

definition is_file :: "node \<Rightarrow> path \<Rightarrow> bool" where
  "is_file fs p = (lookup fs p = Some File)"


subsection \<open>Example trees\<close>

text \<open>
  Example trees. \<open>ex_fs\<close>: two pilot areas with indicator files, an \<open>INDICATORS\<close> folder
  under \<open>outputs\<close> and a plain file named \<open>INDICATORS\<close>. \<open>nested_fs\<close>: an \<open>INDICATORS\<close>
  folder inside another. \<open>store_fs\<close>: a directory whose name matches the basename.
\<close>

definition ex_fs :: node where
  "ex_fs = Dir [(''repo'', Dir
      [(''.git'', Dir []),
       (''outputs'', Dir [(''INDICATORS'', Dir [(''cdd.nc'', File)])]),
       (''Athens'', Dir [(''INDICATORS'', Dir [(''cdd.nc'', File), (''sub'', Dir [(''txx.nc'', File)])])]),
       (''Birmingham'', Dir [(''data'', Dir [(''INDICATORS'', Dir [(''txx.nc'', File)])]),
                             (''INDICATORS'', File)])])]"

definition nested_fs :: node where
  "nested_fs = Dir [(''repo'', Dir
      [(''Athens'', Dir [(''INDICATORS'', Dir [(''INDICATORS'', Dir [(''cdd.nc'', File)])])])])]"


definition store_fs :: node where
  "store_fs = Dir [(''repo'', Dir
      [(''Athens'', Dir [(''INDICATORS'', Dir [(''cdd.zarr'', Dir [(''.zmetadata'', File)])])])])]"

text \<open>
  The entries below the \<open>INDICATORS\<close> directories that \<open>iter_indicators_dirs\<close> returns whose
  names match the basename, as a set: what \<open>resolve_indicator_by_basename\<close> searches for.
\<close>

definition indicator_matches :: "node \<Rightarrow> string \<Rightarrow> path \<Rightarrow> path set" where
  "indicator_matches fs basename root' =
     {p. \<exists>d \<in> set (iter_indicators_dirs fs root'). \<exists>q.
           p = d @ q \<and> q \<noteq> [] \<and> glob_match basename (last q) \<and> lookup fs p \<noteq> None}"

section \<open>plot-map\_2D.py\<close>

subsection \<open>Formatting\<close>

text \<open>
  \<open>str\<close> and f-string formatting of the values the script formats: an integer in
  decimal, \<open>None\<close> as the word \<open>None\<close>, a string as itself; \<open>lower\<close> on ASCII letters.
\<close>

definition digit :: "nat \<Rightarrow> char" where
  "digit d = char_of (of_char (CHR ''0'') + d)"

fun str_nat :: "nat \<Rightarrow> string" where
  "str_nat n = (if n < 10 then [digit n] else str_nat (n div 10) @ [digit (n mod 10)])"

declare str_nat.simps [simp del]

definition str_int :: "int \<Rightarrow> string" where
  "str_int i = (if i < 0 then CHR ''-'' # str_nat (nat (- i)) else str_nat (nat i))"

definition fmt_int :: "int option \<Rightarrow> string" where
  "fmt_int v = (case v of None \<Rightarrow> ''None'' | Some i \<Rightarrow> str_int i)"

definition fmt_str :: "string option \<Rightarrow> string" where
  "fmt_str v = (case v of None \<Rightarrow> ''None'' | Some s \<Rightarrow> s)"

definition lower_char :: "char \<Rightarrow> char" where
  "lower_char c =
     (if CHR ''A'' \<le> c \<and> c \<le> CHR ''Z'' then char_of (of_char c + (32 :: nat)) else c)"

definition lower :: "string \<Rightarrow> string" where
  "lower s = map lower_char s"

subsection \<open>Parameters and file names\<close>

text \<open>
  The parameter block at the top of the script. The years and the scenario may be \<open>None\<close>.
  \<open>var_name\<close> is the fixed data variable \<open>CDD\<close>; \<open>filename\<close> and \<open>title_savefig\<close> are the
  two calls the script makes with its parameters.
\<close>

record config =
  pilotarea :: string
  dataset_name :: string
  indicator :: string
  start_year :: "int option"
  end_year :: "int option"
  hist_start_year :: "int option"
  hist_end_year :: "int option"
  proj_start_year :: "int option"
  proj_end_year :: "int option"
  scenario :: "string option"

definition base :: "config \<Rightarrow> string" where
  "base c = ''/work/cmcc/gf27821/CARMINE/CARMINE-T2.4/'' @ pilotarea c @ ''/INDICATORS''"

definition FUA_SHP :: string where
  "FUA_SHP = ''/work/cmcc/gg21021/shapefile/UI-boundaries-FUA/FUA_Boundaries.shp''"

definition var_name :: string where
  "var_name = ''CDD''"

definition construct_filename ::
  "string \<Rightarrow> string \<Rightarrow> string \<Rightarrow> int option \<Rightarrow> int option \<Rightarrow> int option \<Rightarrow> int option \<Rightarrow>
   int option \<Rightarrow> int option \<Rightarrow> string option \<Rightarrow> exn + string" where
  "construct_filename pilotarea' dataset_name' indicator' start_year' end_year'
       hist_start_year' hist_end_year' proj_start_year' proj_end_year' scenario' =
     (let pilot_lower = lower pilotarea' in
      if dataset_name' \<in> set [''cerra'', ''eobs''] then
        (let period_start = fmt_int start_year'; period_end = fmt_int end_year' in
         Inr (pilot_lower @ ''_'' @ dataset_name' @ ''_'' @ indicator' @ ''_eu_'' @ period_start
              @ ''_'' @ period_end @ ''.nc''))
      else if dataset_name' = ''era5-2km'' then
        (let period_start = fmt_int start_year'; period_end = fmt_int end_year' in
         Inr (pilot_lower @ ''_'' @ dataset_name' @ ''_'' @ indicator' @ ''_'' @ period_start
              @ period_end @ ''.nc''))
      else if dataset_name' = ''eu-cordex-11'' then
        Inr (pilot_lower @ ''_'' @ dataset_name' @ ''_'' @ indicator' @ ''_''
             @ fmt_int hist_start_year' @ ''-'' @ fmt_int hist_end_year' @ ''_''
             @ fmt_int proj_start_year' @ ''-'' @ fmt_int proj_end_year' @ ''_''
             @ fmt_str scenario' @ ''.nc'')
      else Inl ValueError)"

definition get_title_and_savefig ::
  "string \<Rightarrow> string \<Rightarrow> string \<Rightarrow> int option \<Rightarrow> int option \<Rightarrow> int option \<Rightarrow> int option \<Rightarrow>
   int option \<Rightarrow> int option \<Rightarrow> string option \<Rightarrow> string \<times> string" where
  "get_title_and_savefig pilotarea' dataset_name' var_name' start_year' end_year'
       hist_start_year' hist_end_year' proj_start_year' proj_end_year' scenario' =
     (if dataset_name' = ''eu-cordex-11'' then
        (''Average Map of '' @ var_name' @ '' from '' @ fmt_int hist_start_year' @ ''-''
           @ fmt_int hist_end_year' @ '' & '' @ fmt_int proj_start_year' @ ''-''
           @ fmt_int proj_end_year' @ [CHR 0x0A]
           @ ''over '' @ pilotarea' @ '' in '' @ dataset_name' @ '' ('' @ fmt_str scenario' @ '')'',
         pilotarea' @ ''_'' @ var_name' @ ''_'' @ dataset_name' @ ''_'' @ fmt_int hist_start_year'
           @ ''-'' @ fmt_int hist_end_year' @ ''_'' @ fmt_int proj_start_year' @ ''-''
           @ fmt_int proj_end_year' @ ''_'' @ fmt_str scenario' @ ''.png'')
      else
        (''Average Map of '' @ var_name' @ '' from '' @ fmt_int start_year' @ '' to ''
           @ fmt_int end_year' @ [CHR 0x0A]
           @ ''over '' @ pilotarea' @ '' in '' @ dataset_name',
         pilotarea' @ ''_'' @ var_name' @ ''_'' @ dataset_name' @ ''_'' @ fmt_int start_year'
           @ ''-'' @ fmt_int end_year' @ ''.png''))"

subsection \<open>The script\<close>

text \<open>
  The outside world of the script: opening the dataset, the extraction of the data and
  its valid coordinates (\<open>prepare_data\<close>: the numeric block between opening the dataset and
  loading the FUA, which may raise), reading the shapefile, and the reprojection. A run is the list
  of the file accesses and plotting calls it makes, in order, and the exception that
  ended it, if any. The matplotlib and cartopy calls are taken to succeed; console
  output is not part of the model.
\<close>

record feature =
  FUA_NAME :: string
  geometry :: "(real \<times> real) list"

type_synonym geodataframe = "feature list"

record ('ds, 'g) world =
  open_dataset :: "string \<Rightarrow> exn + 'ds"
  prepare_data :: "'ds \<Rightarrow> exn + 'g"
  read_file :: "string \<Rightarrow> exn + geodataframe"
  to_crs :: "geodataframe \<Rightarrow> nat \<Rightarrow> exn + geodataframe"

datatype 'g event =
    ReadDataset string | ReadShapefile string
  | Figure | Axes | Gridlines | Pcolormesh 'g | BoundaryPlot geodataframe
  | Colorbar string | SetExtent 'g | Title string | XLabel string | YLabel string
  | Savefig string | Show

text \<open>
  The \<open>try\<close> block: the handler is \<open>except Exception\<close>, so every exception of the two
  calls ends in \<open>fua_shape = None\<close>, \<open>fua_found = False\<close>. The name selected is the
  literal \<open>Athina\<close>.
\<close>

definition load_fua :: "('ds, 'g) world \<Rightarrow> geodataframe option \<times> bool" where
  "load_fua W =
     (case read_file W FUA_SHP of Inl e \<Rightarrow> (None, False) | Inr gdf \<Rightarrow>
     (case to_crs W gdf 4326 of Inl e \<Rightarrow> (None, False) | Inr fua_gdf \<Rightarrow>
        (let fua_shape = filter (\<lambda>f. FUA_NAME f = ''Athina'') fua_gdf;
             fua_found = (fua_shape \<noteq> [])
         in (Some fua_shape, fua_found))))"

definition filename :: "config \<Rightarrow> exn + string" where
  "filename c =
     construct_filename (pilotarea c) (dataset_name c) (indicator c) (start_year c) (end_year c)
       (hist_start_year c) (hist_end_year c) (proj_start_year c) (proj_end_year c) (scenario c)"

definition title_savefig :: "config \<Rightarrow> string \<times> string" where
  "title_savefig c =
     get_title_and_savefig (pilotarea c) (dataset_name c) var_name (start_year c) (end_year c)
       (hist_start_year c) (hist_end_year c) (proj_start_year c) (proj_end_year c) (scenario c)"

definition plot_steps :: "config \<Rightarrow> 'g \<Rightarrow> geodataframe option \<times> bool \<Rightarrow> 'g event list" where
  "plot_steps c g fua =
     (let (fua_shape, fua_found) = fua;
          (title, savefig_name) = title_savefig c
      in [Figure, Axes, Gridlines, Pcolormesh g]
         @ (if fua_found then (case fua_shape of Some s \<Rightarrow> [BoundaryPlot s] | None \<Rightarrow> []) else [])
         @ [Colorbar (var_name @ '' (days)''), SetExtent g, Title title,
            XLabel ''Longitude [degrees]'', YLabel ''Latitude [degrees]'',
            Savefig savefig_name, Show])"

definition plot_map :: "('ds, 'g) world \<Rightarrow> config \<Rightarrow> 'g event list \<times> exn option" where
  "plot_map W c =
     (case filename c of
        Inl e \<Rightarrow> ([], Some e)
      | Inr fn \<Rightarrow>
     (case open_dataset W (base c @ ''/'' @ fn) of
        Inl e \<Rightarrow> ([ReadDataset (base c @ ''/'' @ fn)], Some e)
      | Inr ds \<Rightarrow>
     (case prepare_data W ds of
        Inl e \<Rightarrow> ([ReadDataset (base c @ ''/'' @ fn)], Some e)
      | Inr g \<Rightarrow>
        ([ReadDataset (base c @ ''/'' @ fn), ReadShapefile FUA_SHP]
           @ plot_steps c g (load_fua W), None))))"

section \<open>Reading runs and exception flow\<close>

text \<open>
  \<open>seq\<close> is plain sequencing: the second step runs on the result of the first, and an
  exception of either step is the exception of the whole. \<open>subscript\<close> is \<open>d[k]\<close> on a
  dictionary. \<open>writes\<close> and \<open>reads\<close> are the files a run writes and reads, \<open>is_overlay\<close>
  marks the boundary overlay.
\<close>

definition seq :: "exn + 'a \<Rightarrow> ('a \<Rightarrow> exn + 'b) \<Rightarrow> exn + 'b" where
  "seq x f = (case x of Inl e \<Rightarrow> Inl e | Inr a \<Rightarrow> f a)"

definition subscript :: "('k \<rightharpoonup> 'v) \<Rightarrow> 'k \<Rightarrow> exn + 'v" where
  "subscript m k = (case m k of None \<Rightarrow> Inl KeyError | Some v \<Rightarrow> Inr v)"

definition writes :: "'g event list \<Rightarrow> string list" where
  "writes evs = concat (map (\<lambda>ev. case ev of Savefig f \<Rightarrow> [f] | _ \<Rightarrow> []) evs)"

definition reads :: "'g event list \<Rightarrow> string list" where
  "reads evs =
     concat (map (\<lambda>ev. case ev of ReadDataset f \<Rightarrow> [f] | ReadShapefile f \<Rightarrow> [f] | _ \<Rightarrow> []) evs)"

definition is_overlay :: "'g event \<Rightarrow> bool" where
  "is_overlay ev = (case ev of BoundaryPlot s \<Rightarrow> True | _ \<Rightarrow> False)"

section \<open>Example data\<close>

text \<open>Sub-daily example series: two samples on the first day of 2000, one on later days.\<close>

definition ex_tasmax :: dataarray where
  "ex_tasmax = \<lparr>points = [((2000, 1), 20), ((2000, 1), 30), ((2000, 2), 12), ((2001, 1), 9)],
                attrs = Map.empty\<rparr>"

definition ex_tasmin :: dataarray where
  "ex_tasmin = \<lparr>points = [((2000, 1), 15), ((2000, 1), 5), ((2000, 2), 6), ((2001, 1), 1)],
                attrs = Map.empty\<rparr>"

definition ex_pr :: dataarray where
  "ex_pr = \<lparr>points = [((2000, 1), 2), ((2000, 1), 4), ((2000, 2), 0)], attrs = Map.empty\<rparr>"

definition ex_pr_daily :: dataarray where
  "ex_pr_daily = \<lparr>points = [((2000, 1), 3), ((2000, 2), 0)], attrs = Map.empty\<rparr>"

definition ex_nights :: dataarray where
  "ex_nights = \<lparr>points = [((2000, 1), 15), ((2000, 1), 25), ((2000, 2), 12)],
                attrs = Map.empty\<rparr>"

text \<open>
  The script's first example configuration, a shapefile with two areas, a world in which
  every file loads, one in which the shapefile is missing, and a library in which the
  fit of the precipitation index fails.
\<close>

definition ex_config :: config where
  "ex_config = \<lparr>pilotarea = ''Athens'', dataset_name = ''era5-2km'', indicator = ''cdd'',
                 start_year = Some 1989, end_year = Some 2018,
                 hist_start_year = None, hist_end_year = None,
                 proj_start_year = None, proj_end_year = None, scenario = None\<rparr>"

definition ex_gdf :: geodataframe where
  "ex_gdf = [\<lparr>FUA_NAME = ''Birmingham'', geometry = [(-2, 52), (-1, 52), (-1, 53)]\<rparr>,
             \<lparr>FUA_NAME = ''Athina'', geometry = [(23, 37), (24, 37), (24, 38)]\<rparr>]"

definition ex_world :: "(nat, nat) world" where
  "ex_world = \<lparr>open_dataset = (\<lambda>f. Inr 0), prepare_data = (\<lambda>ds. Inr ds),
                read_file = (\<lambda>f. Inr ex_gdf), to_crs = (\<lambda>g epsg. Inr g)\<rparr>"

definition no_shapefile_world :: "(nat, nat) world" where
  "no_shapefile_world = ex_world\<lparr>read_file := (\<lambda>f. Inl FileNotFoundError)\<rparr>"

definition fit_error_lib :: lib where
  "fit_error_lib = example_lib\<lparr>xc_standardized_precipitation_index := (\<lambda>x f. Inl FitError)\<rparr>"


section \<open>Properties of gdd\_baker\<close>

lemma D_nonneg: "0 \<le> D tx tn tbase"
  by (simp add: D_def Let_def)

lemma D_eq_spec: "D tx tn tbase = D_spec tx tn tbase"
  by (simp add: D_def D_spec_def Let_def)

lemma year_sum_zip:
  assumes "map fst xs = map fst ys"
  shows "year_sum (map (\<lambda>((d, tx), (d', tn)). (d, f tx tn)) (zip xs ys)) y
       = sum_list (map (\<lambda>i. f (map snd xs ! i) (map snd ys ! i))
                (filter (\<lambda>i. fst (map fst xs ! i) = y) [0..<length (map fst xs)]))"
proof -
  have len: "length xs = length ys" using assms by (metis length_map)
  let ?zs = "map (\<lambda>((d, tx), (d', tn)). (d, f tx tn)) (zip xs ys)"
  have zs: "?zs = map (\<lambda>i. (fst (xs ! i), f (snd (xs ! i)) (snd (ys ! i)))) [0..<length xs]"
    using len by (intro nth_equalityI) (auto simp: split_def)
  have fl: "filter (\<lambda>i. fst (map fst xs ! i) = y) [0..<length xs]
          = filter (\<lambda>i. fst (fst (xs ! i)) = y) [0..<length xs]"
    by (rule filter_cong) auto
  have mp: "map (\<lambda>i. f (map snd xs ! i) (map snd ys ! i))
              (filter (\<lambda>i. fst (fst (xs ! i)) = y) [0..<length xs])
          = map (\<lambda>i. f (snd (xs ! i)) (snd (ys ! i)))
              (filter (\<lambda>i. fst (fst (xs ! i)) = y) [0..<length xs])"
    using len by (intro map_cong) auto
  show ?thesis
    unfolding year_sum_def zs
    by (simp add: filter_map o_def fl mp)
qed

lemma years_zip:
  assumes "map fst xs = map fst ys"
  shows "map (fst \<circ> fst) (map (\<lambda>((d, tx), (d', tn)). (d, f tx tn)) (zip xs ys)) = map fst (map fst xs)"
proof -
  have len: "length xs = length ys" using assms by (metis length_map)
  show ?thesis using len by (intro nth_equalityI) (auto simp: split_def)
qed


text \<open>
  C1. Whenever the daily resampling and the conversion to degrees Celsius return and
  the two daily arrays share their time axis, \<open>gdd_baker\<close> returns, for every calendar
  year from the first to the last, the sum over the days of that year of the daily value
  \<open>D_spec\<close>: \<open>0\<close> if \<open>tmax \<le> tbase\<close>; else \<open>(tmax + tmin)/2 - tbase\<close> if \<open>tmin \<ge> tbase\<close>; else
  \<open>(tmax - tbase)/2 + (tbase - tmin)/4\<close> if \<open>(tmax + tmin)/2 > tbase\<close>; else \<open>(tmax - tbase)/4\<close>.
  The argument \<open>freq\<close> does not occur on the right: the grouping is annual for every \<open>freq\<close>.
\<close>

theorem gdd_baker_piecewise_annual_sum:
  assumes "resample L AggMax tasmax = Inr a"
    and "convert_units_to L a ''degC'' = Inr tasmax_daily"
    and "resample L AggMin tasmin = Inr b"
    and "convert_units_to L b ''degC'' = Inr tasmin_daily"
    and "map fst (points tasmax_daily) = map fst (points tasmin_daily)"
  shows "gdd_baker L tasmax tasmin tbase freq =
           Inr \<lparr>points = map (\<lambda>y. ((y, 1),
                      annual_sum_spec (map fst (points tasmax_daily))
                        (map snd (points tasmax_daily)) (map snd (points tasmin_daily)) tbase y))
                     (years_spec (map fst (points tasmax_daily))),
                attrs = gdd_attrs\<rparr>"
proof -
  let ?xs = "points tasmax_daily" and ?ys = "points tasmin_daily"
  let ?Ds = "map (\<lambda>((d, tx), (d', tn)). (d, D tx tn tbase)) (zip ?xs ?ys)"
  have len: "length ?xs = length ?ys" using assms(5) by (metis length_map)
  have DA: "D_array tasmax_daily tasmin_daily tbase = Inr ?Ds"
    using assms(5) by (simp add: D_array_def)
  have ys: "map (fst \<circ> fst) ?Ds = map fst (map fst ?xs)"
    by (rule years_zip [OF assms(5)])
  have emp: "(?Ds = []) = (map fst ?xs = [])" using len by (cases ?xs; cases ?ys) auto
  have sums: "year_sum ?Ds y = annual_sum_spec (map fst ?xs) (map snd ?xs) (map snd ?ys) tbase y" for y
    unfolding annual_sum_spec_def
    by (simp only: year_sum_zip [OF assms(5)] D_eq_spec)
  have "resample_YS_sum ?Ds = map (\<lambda>y. ((y, 1),
                      annual_sum_spec (map fst ?xs) (map snd ?xs) (map snd ?ys) tbase y))
                     (years_spec (map fst ?xs))"
    unfolding resample_YS_sum_def years_spec_def ys emp sums by simp
  then show ?thesis
    using assms(1-4) DA by (simp add: gdd_baker_def)
qed

text \<open>
  C8. The daily degree-day value is nonnegative for all real \<open>tmax\<close>, \<open>tmin\<close> and \<open>tbase\<close>,
  and so is every annual sum that \<open>gdd_baker\<close> returns.
\<close>

theorem gdd_baker_nonneg:
  assumes "gdd_baker L tasmax tasmin tbase freq = Inr g"
  shows "0 \<le> D tx tn tbase \<and> list_all (\<lambda>p. 0 \<le> snd p) (points g)"
proof -
  have ys: "0 \<le> year_sum (map (\<lambda>((d, tx), (d', tn)). (d, D tx tn tbase)) zs) y" for zs y
    unfolding year_sum_def
    by (rule sum_list_nonneg) (auto simp: D_nonneg)
  have "list_all (\<lambda>p. 0 \<le> snd p) (resample_YS_sum (map (\<lambda>((d, tx), (d', tn)). (d, D tx tn tbase)) zs))" for zs
    unfolding resample_YS_sum_def by (simp add: list_all_iff ys)
  then show ?thesis
    using assms
    by (auto simp: gdd_baker_def D_array_def D_nonneg split: sum.splits if_splits)
qed

text \<open>The example series: 11.75 degree days in 2000 and none in 2001, also with \<open>freq = MS\<close>.\<close>

lemma ex_daily_max:
  "resample example_lib AggMax ex_tasmax =
     Inr \<lparr>points = [((2000, 1), 30), ((2000, 2), 12), ((2001, 1), 9)], attrs = Map.empty\<rparr>"
  by (simp add: example_lib_def xr_resample_def ex_tasmax_def agg_apply_def)

lemma ex_daily_min:
  "resample example_lib AggMin ex_tasmin =
     Inr \<lparr>points = [((2000, 1), 5), ((2000, 2), 6), ((2001, 1), 1)], attrs = Map.empty\<rparr>"
  by (simp add: example_lib_def xr_resample_def ex_tasmin_def agg_apply_def)

lemma ex_convert: "convert_units_to example_lib x ''degC'' = Inr x"
  by (simp add: example_lib_def)

theorem gdd_baker_piecewise_annual_sum_witness:
  "gdd_baker example_lib ex_tasmax ex_tasmin 10 ''MS'' =
     Inr \<lparr>points = [((2000, 1), 47 / 4), ((2001, 1), 0)], attrs = gdd_attrs\<rparr>"
  using gdd_baker_piecewise_annual_sum [OF ex_daily_max ex_convert ex_daily_min ex_convert, of 10 "''MS''"]
  by (simp add: years_spec_def annual_sum_spec_def D_spec_def upt_rec)

theorem gdd_baker_nonneg_witness:
  "gdd_baker example_lib ex_tasmax ex_tasmin 10 ''YS'' =
     Inr \<lparr>points = [((2000, 1), 47 / 4), ((2001, 1), 0)], attrs = gdd_attrs\<rparr> \<and>
   0 \<le> D 30 5 10 \<and>
   list_all (\<lambda>p. 0 \<le> snd p) [((2000, 1), 47 / 4 :: real), ((2001 :: int, 1 :: nat), 0)]"
proof -
  have g: "gdd_baker example_lib ex_tasmax ex_tasmin 10 ''YS'' =
     Inr \<lparr>points = [((2000, 1), 47 / 4), ((2001, 1), 0)], attrs = gdd_attrs\<rparr>"
    by (simp add: gdd_baker_def ex_daily_max ex_daily_min ex_convert D_array_def D_def
        resample_YS_sum_def year_sum_def)
  from gdd_baker_nonneg [OF g, of 30 5] g show ?thesis by simp
qed

section \<open>Daily maximum and minimum\<close>

lemma agg_max: "vs \<noteq> [] \<Longrightarrow> agg_apply AggMax vs = Max (set vs)"
  using Max.set_eq_fold [of "hd vs" "tl vs"] by (cases vs) (simp_all add: agg_apply_def)

lemma agg_min: "vs \<noteq> [] \<Longrightarrow> agg_apply AggMin vs = Min (set vs)"
  using Min.set_eq_fold [of "hd vs" "tl vs"] by (cases vs) (simp_all add: agg_apply_def)

lemma day_samples:
  "set (map snd (filter (\<lambda>p. fst p = d) ps)) = {v. (d, v) \<in> set ps}"
  by force

lemma day_samples_nonempty:
  "d \<in> set (sort (remdups (map fst ps))) \<Longrightarrow> map snd (filter (\<lambda>p. fst p = d) ps) \<noteq> []"
  by (auto simp: filter_empty_conv)

lemma xr_resample_max: "xr_resample AggMax x = Inr (daily Max x)"
proof -
  have "map (\<lambda>d. (d, agg_apply AggMax (map snd (filter (\<lambda>p. fst p = d) (points x)))))
          (sort (remdups (map fst (points x))))
      = map (\<lambda>d. (d, Max {v. (d, v) \<in> set (points x)})) (sort (remdups (map fst (points x))))"
  proof (rule map_cong [OF refl])
    fix d assume "d \<in> set (sort (remdups (map fst (points x))))"
    then have "map snd (filter (\<lambda>p. fst p = d) (points x)) \<noteq> []"
      by (rule day_samples_nonempty)
    then have "agg_apply AggMax (map snd (filter (\<lambda>p. fst p = d) (points x)))
             = Max (set (map snd (filter (\<lambda>p. fst p = d) (points x))))"
      by (rule agg_max)
    then show "(d, agg_apply AggMax (map snd (filter (\<lambda>p. fst p = d) (points x))))
             = (d, Max {v. (d, v) \<in> set (points x)})"
      unfolding day_samples by (rule arg_cong)
  qed
  then show ?thesis by (simp add: xr_resample_def daily_def)
qed

lemma xr_resample_min: "xr_resample AggMin x = Inr (daily Min x)"
proof -
  have "map (\<lambda>d. (d, agg_apply AggMin (map snd (filter (\<lambda>p. fst p = d) (points x)))))
          (sort (remdups (map fst (points x))))
      = map (\<lambda>d. (d, Min {v. (d, v) \<in> set (points x)})) (sort (remdups (map fst (points x))))"
  proof (rule map_cong [OF refl])
    fix d assume "d \<in> set (sort (remdups (map fst (points x))))"
    then have "map snd (filter (\<lambda>p. fst p = d) (points x)) \<noteq> []"
      by (rule day_samples_nonempty)
    then have "agg_apply AggMin (map snd (filter (\<lambda>p. fst p = d) (points x)))
             = Min (set (map snd (filter (\<lambda>p. fst p = d) (points x))))"
      by (rule agg_min)
    then show "(d, agg_apply AggMin (map snd (filter (\<lambda>p. fst p = d) (points x))))
             = (d, Min {v. (d, v) \<in> set (points x)})"
      unfolding day_samples by (rule arg_cong)
  qed
  then show ?thesis by (simp add: xr_resample_def daily_def)
qed

text \<open>
  C6. With xarray's resampling, the array that \<open>tropical_nights\<close> hands to the xclim
  indicator holds for each day the maximum of the \<open>tasmin\<close> samples of that day, whereas
  \<open>gdd_baker\<close> converts and uses the minimum of the \<open>tasmin\<close> samples of each day (and the
  maximum of the \<open>tasmax\<close> samples).
\<close>

theorem tropical_nights_uses_daily_max:
  assumes "resample L = xr_resample"
  shows "tropical_nights L tasmin freq = xc_tropical_nights L (daily Max tasmin) freq \<and>
         gdd_baker L tasmax tasmin tbase freq =
           (case convert_units_to L (daily Max tasmax) ''degC'' of Inl e \<Rightarrow> Inl e | Inr tasmax_daily \<Rightarrow>
           (case convert_units_to L (daily Min tasmin) ''degC'' of Inl e \<Rightarrow> Inl e | Inr tasmin_daily \<Rightarrow>
           (case D_array tasmax_daily tasmin_daily tbase of Inl e \<Rightarrow> Inl e | Inr Ds \<Rightarrow>
              Inr \<lparr>points = resample_YS_sum Ds, attrs = gdd_attrs\<rparr>)))"
  by (simp add: tropical_nights_def gdd_baker_def assms xr_resample_max xr_resample_min cong: sum.case_cong)

text \<open>
  A day with the samples 15 and 25 degC counts as a tropical night: its maximum is above
  20 degC, its minimum is not.
\<close>

theorem tropical_nights_uses_daily_max_witness:
  "resample example_lib = xr_resample \<and>
   tropical_nights example_lib ex_nights ''YS'' =
     Inr \<lparr>points = [((2000, 1), 1)], attrs = Map.empty\<rparr> \<and>
   daily Max ex_nights = \<lparr>points = [((2000, 1), 25), ((2000, 2), 12)], attrs = Map.empty\<rparr> \<and>
   daily Min ex_nights = \<lparr>points = [((2000, 1), 15), ((2000, 2), 12)], attrs = Map.empty\<rparr>"
proof -
  have r: "resample example_lib = xr_resample" by (simp add: example_lib_def)
  have mx: "xr_resample AggMax ex_nights =
      Inr \<lparr>points = [((2000, 1), 25), ((2000, 2), 12)], attrs = Map.empty\<rparr>"
    by (simp add: xr_resample_def ex_nights_def agg_apply_def)
  have mn: "xr_resample AggMin ex_nights =
      Inr \<lparr>points = [((2000, 1), 15), ((2000, 2), 12)], attrs = Map.empty\<rparr>"
    by (simp add: xr_resample_def ex_nights_def agg_apply_def)
  have dmx: "daily Max ex_nights = \<lparr>points = [((2000, 1), 25), ((2000, 2), 12)], attrs = Map.empty\<rparr>"
    using mx by (simp add: xr_resample_max)
  have dmn: "daily Min ex_nights = \<lparr>points = [((2000, 1), 15), ((2000, 2), 12)], attrs = Map.empty\<rparr>"
    using mn by (simp add: xr_resample_min)
  have "tropical_nights example_lib ex_nights ''YS'' =
          xc_tropical_nights example_lib (daily Max ex_nights) ''YS''"
    using tropical_nights_uses_daily_max [OF r, of ex_nights "''YS''"] by simp
  also have "\<dots> = Inr \<lparr>points = [((2000, 1), 1)], attrs = Map.empty\<rparr>"
    unfolding dmx by (simp add: example_lib_def resample_YS_sum_def year_sum_def)
  finally show ?thesis using r dmx dmn by simp
qed

section \<open>Properties of hot\_spell\_frequency\<close>

text \<open>
  C9, as the code has it. \<open>hot_spell_frequency\<close> first resamples \<open>tasmax\<close> to daily maxima,
  and an exception of that step leaves the function whatever the type is. After it, the
  types \<open>summer\<close>, \<open>hot\<close> and \<open>heatwave\<close> run the spell frequency with 25 degC and 1 day,
  30 degC and 1 day, 27 degC and 3 days, and set \<open>long_name\<close> to \<open>summer_days\<close>, \<open>hot_days\<close>,
  \<open>heatwave_spell\<close>; every other type raises \<open>KeyError\<close> before the spell frequency is
  computed.
\<close>

theorem hot_spell_frequency_types:
  "hot_spell_frequency L tasmax hot_spell_type freq =
     (case resample L AggMax tasmax of Inl e \<Rightarrow> Inl e | Inr tasmax_daily \<Rightarrow>
        if hot_spell_type = ''summer'' then
          (case xc_hot_spell_frequency L tasmax_daily ''25 degC'' 1 freq of Inl e \<Rightarrow> Inl e
           | Inr da \<Rightarrow> Inr (da\<lparr>attrs := (attrs da)(''long_name'' \<mapsto> ''summer_days'')\<rparr>))
        else if hot_spell_type = ''hot'' then
          (case xc_hot_spell_frequency L tasmax_daily ''30 degC'' 1 freq of Inl e \<Rightarrow> Inl e
           | Inr da \<Rightarrow> Inr (da\<lparr>attrs := (attrs da)(''long_name'' \<mapsto> ''hot_days'')\<rparr>))
        else if hot_spell_type = ''heatwave'' then
          (case xc_hot_spell_frequency L tasmax_daily ''27 degC'' 3 freq of Inl e \<Rightarrow> Inl e
           | Inr da \<Rightarrow> Inr (da\<lparr>attrs := (attrs da)(''long_name'' \<mapsto> ''heatwave_spell'')\<rparr>))
        else Inl KeyError)"
  by (simp add: hot_spell_frequency_def hot_spell_def split: sum.splits)

text \<open>
  C9 as stated fails: with an unknown type the resampling still runs first, and when it
  raises, the exception is its own and not \<open>KeyError\<close>.
\<close>

theorem hot_spell_frequency_unknown_type_counterexample:
  "hot_spell ''tropical'' = None \<and>
   hot_spell_frequency broken_axis_lib ex_tasmax ''tropical'' ''YS'' = Inl TypeError \<and>
   hot_spell_frequency broken_axis_lib ex_tasmax ''tropical'' ''YS'' \<noteq> Inl KeyError"
  by (simp add: hot_spell_frequency_def broken_axis_lib_def hot_spell_def)

section \<open>Properties of the path helpers\<close>

lemma lookup_append:
  "lookup n (p @ q) = (case lookup n p of None \<Rightarrow> None | Some c \<Rightarrow> lookup c q)"
proof (induction n p rule: lookup.induct)
  case (1 n)
  then show ?case by simp
next
  case (2 x xs)
  then show ?case by simp
next
  case (3 es x xs)
  then show ?case by (simp split: option.splits)
qed

lemma wf_node_child:
  assumes "wf_node (Dir es)" and "map_of es x = Some c"
  shows "wf_node c"
  using assms by (auto simp: list_all_iff dest!: map_of_SomeD)

lemma wf_node_lookup: "wf_node n \<Longrightarrow> lookup n p = Some c \<Longrightarrow> wf_node c"
proof (induction n p rule: lookup.induct)
  case (1 n)
  then show ?case by simp
next
  case (2 x xs)
  then show ?case by simp
next
  case (3 es x xs)
  from "3.prems"(2) obtain c' where c': "map_of es x = Some c'" and l: "lookup c' xs = Some c"
    by (auto split: option.splits)
  from wf_node_child [OF "3.prems"(1) c'] "3.IH" [OF c' _ l] show ?case by simp
qed

lemma rglob_node_below:
  "r \<in> set (rglob_node pat p n) \<Longrightarrow> \<exists>q. r = p @ q \<and> q \<noteq> []"
proof (induction pat p n rule: rglob_node.induct)
  case (1 pat p)
  then show ?case by simp
next
  case (2 pat p es)
  from "2.prems" consider
      (here) e where "e \<in> set es" "r = p @ [fst e]"
    | (deeper) e where "e \<in> set es" "r \<in> set (rglob_node pat (p @ [fst e]) (snd e))"
    by auto
  then show ?case
  proof cases
    case here
    then show ?thesis by simp
  next
    case deeper
    from "2.IH" [OF deeper] obtain q where "r = (p @ [fst e]) @ q" by blast
    then show ?thesis by simp
  qed
qed

lemma set_rglob_node:
  "wf_node n \<Longrightarrow>
   set (rglob_node pat p n) = {p @ q | q. q \<noteq> [] \<and> glob_match pat (last q) \<and> lookup n q \<noteq> None}"
proof (induction pat p n rule: rglob_node.induct)
  case (1 pat p)
  have "lookup File q = None" if "q \<noteq> []" for q using that by (cases q) simp_all
  then show ?case by fastforce
next
  case (2 pat p es)
  have dist: "distinct (map fst es)" using "2.prems" by simp
  have wfc: "wf_node (snd e)" if "e \<in> set es" for e
    using "2.prems" that by (simp add: list_all_iff)
  have mo: "map_of es x = Some c \<longleftrightarrow> (x, c) \<in> set es" for x c
    using dist by simp
  have IH: "set (rglob_node pat (p @ [fst e]) (snd e))
        = {(p @ [fst e]) @ q | q. q \<noteq> [] \<and> glob_match pat (last q) \<and> lookup (snd e) q \<noteq> None}"
    if "e \<in> set es" for e
    using "2.IH" [OF that wfc [OF that]] .
  show ?case
  proof (intro set_eqI iffI)
    fix r assume "r \<in> set (rglob_node pat p (Dir es))"
    then consider
        (here) e where "e \<in> set es" "glob_match pat (fst e)" "r = p @ [fst e]"
      | (deeper) e where "e \<in> set es" "r \<in> set (rglob_node pat (p @ [fst e]) (snd e))"
      by auto
    then show "r \<in> {p @ q | q. q \<noteq> [] \<and> glob_match pat (last q) \<and> lookup (Dir es) q \<noteq> None}"
    proof cases
      case here
      from here(1) have "map_of es (fst e) = Some (snd e)" by (simp add: mo)
      then have "lookup (Dir es) [fst e] \<noteq> None" by simp
      with here show ?thesis by (intro CollectI exI [of _ "[fst e]"]) simp
    next
      case deeper
      from deeper(2) IH [OF deeper(1)] obtain q where
        q: "r = (p @ [fst e]) @ q" "q \<noteq> []" "glob_match pat (last q)" "lookup (snd e) q \<noteq> None"
        by blast
      from deeper(1) have "map_of es (fst e) = Some (snd e)" by (simp add: mo)
      then have "lookup (Dir es) (fst e # q) \<noteq> None" using q(4) by simp
      with q show ?thesis by (intro CollectI exI [of _ "fst e # q"]) simp
    qed
  next
    fix r assume "r \<in> {p @ q | q. q \<noteq> [] \<and> glob_match pat (last q) \<and> lookup (Dir es) q \<noteq> None}"
    then obtain q where q: "r = p @ q" "q \<noteq> []" "glob_match pat (last q)" "lookup (Dir es) q \<noteq> None"
      by blast
    from q(2) obtain x xs where qx: "q = x # xs" by (cases q) auto
    from q(4) qx obtain c where c: "map_of es x = Some c" "lookup c xs \<noteq> None"
      by (auto split: option.splits)
    then have e: "(x, c) \<in> set es" by (simp add: mo)
    show "r \<in> set (rglob_node pat p (Dir es))"
    proof (cases "xs = []")
      case True
      with q qx e show ?thesis by force
    next
      case False
      with q qx c have "r \<in> {(p @ [x]) @ q | q. q \<noteq> [] \<and> glob_match pat (last q) \<and> lookup c q \<noteq> None}"
        by auto
      with IH [OF e] have "r \<in> set (rglob_node pat (p @ [fst (x, c)]) (snd (x, c)))" by simp
      with e show ?thesis by (simp del: fst_conv snd_conv) blast
    qed
  qed
qed

lemma distinct_concat_map:
  assumes "distinct xs"
    and "\<And>x. x \<in> set xs \<Longrightarrow> distinct (f x)"
    and "\<And>x y. x \<in> set xs \<Longrightarrow> y \<in> set xs \<Longrightarrow> x \<noteq> y \<Longrightarrow> set (f x) \<inter> set (f y) = {}"
  shows "distinct (concat (map f xs))"
  using assms
proof (induction xs)
  case Nil
  then show ?case by simp
next
  case (Cons a xs)
  have "set (f a) \<inter> set (f y) = {}" if "y \<in> set xs" for y
    using Cons.prems(1) that by (intro Cons.prems(3)) auto
  moreover have "distinct (concat (map f xs))"
    using Cons.prems by (intro Cons.IH) auto
  ultimately show ?case using Cons.prems(2) by auto
qed

lemma distinct_rglob_node: "wf_node n \<Longrightarrow> distinct (rglob_node pat p n)"
proof (induction pat p n rule: rglob_node.induct)
  case (1 pat p)
  then show ?case by simp
next
  case (2 pat p es)
  have dist: "distinct (map fst es)" using "2.prems" by simp
  then have des: "distinct es" by (simp add: distinct_map)
  have wfc: "wf_node (snd e)" if "e \<in> set es" for e
    using "2.prems" that by (simp add: list_all_iff)
  let ?A = "map (\<lambda>e. p @ [fst e]) (filter (\<lambda>e. glob_match pat (fst e)) es)"
  let ?f = "\<lambda>e. rglob_node pat (p @ [fst e]) (snd e)"
  have "distinct (map fst (filter (\<lambda>e. glob_match pat (fst e)) es))"
    using dist by (rule distinct_map_filter)
  then have A: "distinct ?A"
    by (simp add: distinct_map inj_on_def)
  have B: "distinct (concat (map ?f es))"
  proof (rule distinct_concat_map [OF des])
    fix e assume "e \<in> set es"
    then show "distinct (?f e)" using "2.IH" wfc by blast
  next
    fix e e' assume e: "e \<in> set es" "e' \<in> set es" "e \<noteq> e'"
    then have ne: "fst e \<noteq> fst e'" using dist by (meson distinct_map inj_onD)
    show "set (?f e) \<inter> set (?f e') = {}"
    proof (rule ccontr)
      assume "set (?f e) \<inter> set (?f e') \<noteq> {}"
      then obtain r where "r \<in> set (?f e)" "r \<in> set (?f e')" by blast
      then obtain q q' where "r = (p @ [fst e]) @ q" "r = (p @ [fst e']) @ q'"
        by (meson rglob_node_below)
      then show False using ne by simp
    qed
  qed
  have AB: "set ?A \<inter> set (concat (map ?f es)) = {}"
  proof (rule ccontr)
    assume "set ?A \<inter> set (concat (map ?f es)) \<noteq> {}"
    then obtain r where r: "r \<in> set ?A" "r \<in> set (concat (map ?f es))" by blast
    from r(1) obtain e where e: "r = p @ [fst e]" by auto
    from r(2) obtain e' where e': "e' \<in> set es" "r \<in> set (?f e')" by auto
    from rglob_node_below [OF e'(2)] obtain q where "r = (p @ [fst e']) @ q" "q \<noteq> []"
      by blast
    with e show False by simp
  qed
  show ?case using A B AB by simp
qed

lemma glob_match_literal:
  "CHR ''*'' \<notin> set pat \<Longrightarrow> CHR ''?'' \<notin> set pat \<Longrightarrow> glob_match pat s \<longleftrightarrow> s = pat"
  by (induction pat s rule: glob_match.induct) auto

lemma glob_match_INDICATORS: "glob_match ''INDICATORS'' s \<longleftrightarrow> s = ''INDICATORS''"
  by (rule glob_match_literal) simp_all


lemma set_rglob:
  assumes "wf_node fs"
  shows "set (rglob fs pat d) =
           {d @ q | q. q \<noteq> [] \<and> glob_match pat (last q) \<and> lookup fs (d @ q) \<noteq> None}"
proof (cases "lookup fs d")
  case None
  then show ?thesis by (simp add: rglob_def lookup_append)
next
  case (Some n)
  then have "wf_node n" using assms wf_node_lookup by blast
  then show ?thesis using Some by (simp add: rglob_def lookup_append set_rglob_node)
qed

lemma distinct_rglob: "wf_node fs \<Longrightarrow> distinct (rglob fs pat d)"
  by (auto simp: rglob_def distinct_rglob_node split: option.splits dest: wf_node_lookup)

lemma is_dir_lookup: "is_dir fs p \<Longrightarrow> lookup fs p \<noteq> None"
  by (auto simp: is_dir_def split: option.splits)

text \<open>
  C4. On a well-formed tree, \<open>iter_indicators_dirs\<close> returns exactly the directories named
  \<open>INDICATORS\<close> below the root whose path has no component among \<open>outputs\<close>, \<open>.git\<close>,
  \<open>.ipynb_checkpoints\<close> and \<open>.cache\<close>, without duplicates and in ascending order of paths.
\<close>

theorem iter_indicators_dirs_spec:
  assumes "wf_node fs"
  shows "set (iter_indicators_dirs fs root') =
           {p. \<exists>q. p = root' @ q \<and> q \<noteq> [] \<and> last q = ''INDICATORS'' \<and> is_dir fs p \<and>
                    set p \<inter> ignore_parts = {}} \<and>
         distinct (iter_indicators_dirs fs root') \<and>
         sorted (iter_indicators_dirs fs root')"
proof -
  have "set (iter_indicators_dirs fs root') =
          {p \<in> set (rglob fs ''INDICATORS'' root'). is_dir fs p \<and> set p \<inter> ignore_parts = {}}"
    by (simp add: iter_indicators_dirs_def)
  also have "\<dots> = {p. \<exists>q. p = root' @ q \<and> q \<noteq> [] \<and> last q = ''INDICATORS'' \<and> is_dir fs p \<and>
                    set p \<inter> ignore_parts = {}}"
    unfolding set_rglob [OF assms] glob_match_INDICATORS
    using is_dir_lookup by blast
  finally show ?thesis by (simp add: iter_indicators_dirs_def)
qed

lemma iter_indicators_dirs_is_dir:
  "d \<in> set (iter_indicators_dirs fs root') \<Longrightarrow> is_dir fs d"
  by (simp add: iter_indicators_dirs_def)

lemma set_iter_indicator_files:
  assumes "wf_node fs"
  shows "set (iter_indicator_files fs basename root') = indicator_matches fs basename root'"
  unfolding iter_indicator_files_def indicator_matches_def
  by (auto simp: set_rglob [OF assms])

lemma distinct_iter_indicator_files:
  assumes "wf_node fs"
    and "\<forall>d \<in> set (iter_indicators_dirs fs root'). \<forall>d' \<in> set (iter_indicators_dirs fs root').
           \<not> strict_prefix d d'"
  shows "distinct (iter_indicator_files fs basename root')"
  unfolding iter_indicator_files_def
proof (rule distinct_concat_map)
  show "distinct (iter_indicators_dirs fs root')" by (simp add: iter_indicators_dirs_def)
next
  fix d show "distinct (rglob fs basename d)" by (rule distinct_rglob [OF assms(1)])
next
  fix d d' assume d: "d \<in> set (iter_indicators_dirs fs root')"
    "d' \<in> set (iter_indicators_dirs fs root')" "d \<noteq> d'"
  show "set (rglob fs basename d) \<inter> set (rglob fs basename d') = {}"
  proof (rule ccontr)
    assume "set (rglob fs basename d) \<inter> set (rglob fs basename d') \<noteq> {}"
    then obtain r where "r \<in> set (rglob fs basename d)" "r \<in> set (rglob fs basename d')" by blast
    then obtain q q' where "r = d @ q" "r = d' @ q'"
      unfolding set_rglob [OF assms(1)] by blast
    then have "prefix d d' \<or> prefix d' d"
      by (metis prefixI append_eq_append_conv2)
    with d(3) have "strict_prefix d d' \<or> strict_prefix d' d"
      by (auto simp: strict_prefix_def)
    with d(1,2) assms(2) show False by blast
  qed
qed

text \<open>
  C2, as the code has it. For a plain basename (one path component, not empty, not \<open>.\<close> or
  \<open>..\<close>, without \<open>/\<close>, \<open>[\<close> and \<open>**\<close>), and when no returned \<open>INDICATORS\<close> directory lies
  inside another, \<open>resolve_indicator_by_basename\<close> returns a path exactly when one entry
  (file or directory) with a matching name lies below those directories, and the path is
  that entry; it raises \<open>FileNotFoundError\<close> exactly when there is none and
  \<open>FileExistsError\<close> exactly when there are two or more.
\<close>

theorem resolve_indicator_by_basename_unique:
  assumes plain: "plain_basename basename"
    and wf: "wf_node fs"
    and nn: "\<forall>d \<in> set (iter_indicators_dirs fs root'). \<forall>d' \<in> set (iter_indicators_dirs fs root').
           \<not> strict_prefix d d'"
  shows "(resolve_indicator_by_basename fs basename root' = Inr p
            \<longleftrightarrow> indicator_matches fs basename root' = {p}) \<and>
         (resolve_indicator_by_basename fs basename root' = Inl FileNotFoundError
            \<longleftrightarrow> indicator_matches fs basename root' = {}) \<and>
         (resolve_indicator_by_basename fs basename root' = Inl FileExistsError
            \<longleftrightarrow> 2 \<le> card (indicator_matches fs basename root'))"
proof -
  let ?hits = "iter_indicator_files fs basename root'"
  let ?M = "indicator_matches fs basename root'"
  have M: "set ?hits = ?M" by (rule set_iter_indicator_files [OF wf])
  have dist: "distinct ?hits" by (rule distinct_iter_indicator_files [OF wf nn])
  have card: "card ?M = length ?hits"
    using distinct_card [OF dist] M by simp
  have one: "?M = {p} \<longleftrightarrow> ?hits = [p]"
  proof
    assume "?M = {p}"
    then have "set ?hits = {p}" using M by simp
    moreover from this have "length ?hits = 1" using distinct_card [OF dist] by simp
    ultimately show "?hits = [p]" by (cases ?hits) auto
  next
    assume "?hits = [p]"
    then show "?M = {p}" using M by (metis list.simps(15) empty_set)
  qed
  have empty: "?M = {} \<longleftrightarrow> ?hits = []" using M by (metis set_empty)
  have r1: "resolve_indicator_by_basename fs basename root' = Inr p \<longleftrightarrow> ?hits = [p]"
    by (cases ?hits) (auto simp: resolve_indicator_by_basename_def Let_def)
  have r2: "resolve_indicator_by_basename fs basename root' = Inl FileNotFoundError \<longleftrightarrow> ?hits = []"
    by (simp add: resolve_indicator_by_basename_def Let_def)
  have r3: "resolve_indicator_by_basename fs basename root' = Inl FileExistsError
              \<longleftrightarrow> 2 \<le> length ?hits"
  proof (cases ?hits)
    case Nil
    then show ?thesis by (simp add: resolve_indicator_by_basename_def Let_def)
  next
    case (Cons a list)
    then show ?thesis by (cases list) (simp_all add: resolve_indicator_by_basename_def Let_def)
  qed
  show ?thesis unfolding r1 r2 r3 one empty card by simp
qed

text \<open>The example tree: the helpers evaluated, and the theorems applied to them.\<close>

lemma wf_ex_fs: "wf_node ex_fs"
  by (simp add: ex_fs_def)

lemma wf_nested_fs: "wf_node nested_fs"
  by (simp add: nested_fs_def)

lemma ex_fs_dirs:
  "iter_indicators_dirs ex_fs [''repo''] =
     [[''repo'', ''Athens'', ''INDICATORS''], [''repo'', ''Birmingham'', ''data'', ''INDICATORS'']]"
  by code_simp

theorem iter_indicators_dirs_spec_witness:
  "wf_node ex_fs \<and>
   {p. \<exists>q. p = [''repo''] @ q \<and> q \<noteq> [] \<and> last q = ''INDICATORS'' \<and> is_dir ex_fs p \<and>
            set p \<inter> ignore_parts = {}} =
     {[''repo'', ''Athens'', ''INDICATORS''], [''repo'', ''Birmingham'', ''data'', ''INDICATORS'']} \<and>
   is_dir ex_fs [''repo'', ''outputs'', ''INDICATORS''] \<and>
   lookup ex_fs [''repo'', ''Birmingham'', ''INDICATORS''] = Some File"
proof -
  have a: "is_dir ex_fs [''repo'', ''outputs'', ''INDICATORS'']" by code_simp
  have b: "lookup ex_fs [''repo'', ''Birmingham'', ''INDICATORS''] = Some File" by code_simp
  from iter_indicators_dirs_spec [OF wf_ex_fs, of "[''repo'']"] wf_ex_fs a b
  show ?thesis unfolding ex_fs_dirs by simp
qed

lemma ex_fs_no_nesting:
  "\<forall>d \<in> set (iter_indicators_dirs ex_fs [''repo'']).
     \<forall>d' \<in> set (iter_indicators_dirs ex_fs [''repo'']). \<not> strict_prefix d d'"
  unfolding ex_fs_dirs by simp

lemma ex_plain_basenames:
  "plain_basename ''cdd.nc''" "plain_basename ''spi.nc''" "plain_basename ''txx.nc''"
  "plain_basename ''*.nc''" "plain_basename ''cdd.zarr''"
  by (simp_all add: plain_basename_def)

lemma not_plain_basenames:
  "\<not> plain_basename []" "\<not> plain_basename ''cdd[1].nc''" "\<not> plain_basename ''sub/txx.nc''"
  "\<not> plain_basename ''a**b''" "\<not> plain_basename ''/abs''" "\<not> plain_basename ''..''"
  by (simp_all add: plain_basename_def)

theorem resolve_indicator_by_basename_unique_witness:
  "wf_node ex_fs \<and>
   plain_basename ''cdd.nc'' \<and> plain_basename ''spi.nc'' \<and> plain_basename ''txx.nc'' \<and>
   resolve_indicator_by_basename ex_fs ''cdd.nc'' [''repo'']
     = Inr [''repo'', ''Athens'', ''INDICATORS'', ''cdd.nc''] \<and>
   indicator_matches ex_fs ''cdd.nc'' [''repo''] = {[''repo'', ''Athens'', ''INDICATORS'', ''cdd.nc'']} \<and>
   resolve_indicator_by_basename ex_fs ''spi.nc'' [''repo''] = Inl FileNotFoundError \<and>
   indicator_matches ex_fs ''spi.nc'' [''repo''] = {} \<and>
   resolve_indicator_by_basename ex_fs ''txx.nc'' [''repo''] = Inl FileExistsError \<and>
   2 \<le> card (indicator_matches ex_fs ''txx.nc'' [''repo''])"
proof -
  have a: "resolve_indicator_by_basename ex_fs ''cdd.nc'' [''repo'']
     = Inr [''repo'', ''Athens'', ''INDICATORS'', ''cdd.nc'']" by code_simp
  have b: "resolve_indicator_by_basename ex_fs ''spi.nc'' [''repo''] = Inl FileNotFoundError"
    by code_simp
  have c: "resolve_indicator_by_basename ex_fs ''txx.nc'' [''repo''] = Inl FileExistsError"
    by code_simp
  note t1 = resolve_indicator_by_basename_unique [OF ex_plain_basenames(1) wf_ex_fs ex_fs_no_nesting]
  note t2 = resolve_indicator_by_basename_unique [OF ex_plain_basenames(2) wf_ex_fs ex_fs_no_nesting]
  note t3 = resolve_indicator_by_basename_unique [OF ex_plain_basenames(3) wf_ex_fs ex_fs_no_nesting]
  from t1 [of "[''repo'', ''Athens'', ''INDICATORS'', ''cdd.nc'']"] t2 [of "[]"] t3 [of "[]"]
       a b c wf_ex_fs ex_plain_basenames(1-3)
  show ?thesis by simp
qed

text \<open>
  C2 as stated fails twice. In \<open>nested_fs\<close> one file matches, but it is found once from
  each of the two nested \<open>INDICATORS\<close> directories, and the function raises
  \<open>FileExistsError\<close>. In \<open>store_fs\<close> no file matches, and the function returns the
  directory of that name.
\<close>

theorem resolve_indicator_by_basename_counterexample:
  "indicator_matches nested_fs ''cdd.nc'' [''repo'']
     = {[''repo'', ''Athens'', ''INDICATORS'', ''INDICATORS'', ''cdd.nc'']} \<and>
   lookup nested_fs [''repo'', ''Athens'', ''INDICATORS'', ''INDICATORS'', ''cdd.nc''] = Some File \<and>
   resolve_indicator_by_basename nested_fs ''cdd.nc'' [''repo''] = Inl FileExistsError \<and>
   resolve_indicator_by_basename store_fs ''cdd.zarr'' [''repo'']
     = Inr [''repo'', ''Athens'', ''INDICATORS'', ''cdd.zarr''] \<and>
   is_dir store_fs [''repo'', ''Athens'', ''INDICATORS'', ''cdd.zarr'']"
proof -
  have h: "iter_indicator_files nested_fs ''cdd.nc'' [''repo''] =
      [[''repo'', ''Athens'', ''INDICATORS'', ''INDICATORS'', ''cdd.nc''],
       [''repo'', ''Athens'', ''INDICATORS'', ''INDICATORS'', ''cdd.nc'']]"
    by code_simp
  have a: "indicator_matches nested_fs ''cdd.nc'' [''repo'']
     = {[''repo'', ''Athens'', ''INDICATORS'', ''INDICATORS'', ''cdd.nc'']}"
    using set_iter_indicator_files [OF wf_nested_fs, of "''cdd.nc''" "[''repo'']"]
    unfolding h by simp
  have b: "lookup nested_fs [''repo'', ''Athens'', ''INDICATORS'', ''INDICATORS'', ''cdd.nc''] = Some File"
    by code_simp
  have c: "resolve_indicator_by_basename nested_fs ''cdd.nc'' [''repo''] = Inl FileExistsError"
    by code_simp
  have d: "resolve_indicator_by_basename store_fs ''cdd.zarr'' [''repo'']
     = Inr [''repo'', ''Athens'', ''INDICATORS'', ''cdd.zarr'']" by code_simp
  have e: "is_dir store_fs [''repo'', ''Athens'', ''INDICATORS'', ''cdd.zarr'']" by code_simp
  from a b c d e show ?thesis by simp
qed

section \<open>Properties of mkdir\<close>

lemma mkdir_empty: "\<exists>c. mkdir (Dir []) xs = Inr c"
  by (induction xs) auto

lemma is_dir_Nil [simp]: "is_dir (Dir es) []" "\<not> is_dir File q"
  by (cases q; simp add: is_dir_def)+

lemma is_file_simps [simp]: "\<not> is_file (Dir es) []" "is_file File q \<longleftrightarrow> q = []"
  by (cases q; simp add: is_file_def)+

lemma is_dir_Cons: "is_dir (Dir es) (x # xs) = (case map_of es x of None \<Rightarrow> False | Some c \<Rightarrow> is_dir c xs)"
  by (simp add: is_dir_def split: option.splits)

lemma is_file_Cons: "is_file (Dir es) (x # xs) = (case map_of es x of None \<Rightarrow> False | Some c \<Rightarrow> is_file c xs)"
  by (simp add: is_file_def split: option.splits)

lemma mkdir_frame:
  "mkdir n p = Inr n' \<Longrightarrow>
     is_file n' q = is_file n q \<and> (is_dir n' q \<longleftrightarrow> is_dir n q \<or> prefix q p)"
proof (induction n p arbitrary: n' q rule: mkdir.induct)
  case 1
  then show ?case by simp
next
  case (2 es)
  then show ?case by (cases q) (auto simp: is_dir_Cons)
next
  case (3 x xs)
  then show ?case by simp
next
  case (4 es x xs)
  show ?case
  proof (cases "map_of es x")
    case None
    with "4.prems" obtain c where c: "mkdir (Dir []) xs = Inr c" and n': "n' = Dir (es @ [(x, c)])"
      by (auto split: sum.splits)
    note IH = "4.IH"(1) [OF None c]
    show ?thesis
    proof (cases q)
      case Nil
      then show ?thesis using n' by simp
    next
      case (Cons y ys)
      show ?thesis
      proof (cases "y = x")
        case True
        have "is_file c ys = is_file (Dir []) ys" "is_dir c ys \<longleftrightarrow> is_dir (Dir []) ys \<or> prefix ys xs"
          using IH [of ys] by simp_all
        moreover have "\<not> is_file (Dir []) ys" "is_dir (Dir []) ys \<longleftrightarrow> ys = []"
          by (cases ys; simp add: is_file_Cons is_dir_Cons)+
        ultimately show ?thesis using None n' Cons True
          by (auto simp: is_file_Cons is_dir_Cons map_add_def)
      next
        case False
        then show ?thesis using None n' Cons
          by (auto simp: is_file_Cons is_dir_Cons map_add_def split: option.splits)
      qed
    qed
  next
    case (Some c)
    with "4.prems" obtain c' where c': "mkdir c xs = Inr c'" and n': "n' = Dir (AList.update x c' es)"
      by (auto split: sum.splits)
    note IH = "4.IH"(2) [OF Some c']
    show ?thesis
    proof (cases q)
      case Nil
      then show ?thesis using n' by simp
    next
      case (Cons y ys)
      then show ?thesis using Some n' IH [of ys]
        by (auto simp: is_file_Cons is_dir_Cons update_conv' split: option.splits)
    qed
  qed
qed



section \<open>Importing paths.py\<close>

lemma lookup_prefix_dir:
  assumes "lookup fs (p @ q) \<noteq> None" and "q \<noteq> []"
  shows "is_dir fs p"
proof -
  from assms(2) obtain x xs where q: "q = x # xs" by (cases q) auto
  from assms(1) obtain c where c: "lookup fs p = Some c" "lookup c (x # xs) \<noteq> None"
    unfolding lookup_append q by (auto split: option.splits)
  then show ?thesis by (cases c) (simp_all add: is_dir_def)
qed

lemma find_repo_root_git:
  assumes "find_repo_root fs start = Inr r"
  shows "lookup fs (r @ [''.git'']) \<noteq> None"
proof -
  from assms have "List.find (\<lambda>parent. lookup fs (parent @ [''.git'']) \<noteq> None)
             (map (\<lambda>k. take k start) (rev [0..<Suc (length start)])) = Some r"
    by (auto simp: find_repo_root_def split: option.splits)
  then show ?thesis unfolding find_Some_iff by blast
qed

lemma find_repo_root_dirs:
  assumes "find_repo_root fs start = Inr r" and "prefix q r"
  shows "is_dir fs q"
proof -
  from assms(2) obtain z where "r = q @ z" by (auto simp: prefix_def)
  then have "lookup fs (q @ (z @ [''.git''])) \<noteq> None"
    using find_repo_root_git [OF assms(1)] by simp
  then show ?thesis by (rule lookup_prefix_dir) simp
qed

lemma prefix_append2:
  "prefix q (r @ [a, b]) \<longleftrightarrow> prefix q r \<or> q = r @ [a] \<or> q = r @ [a, b]"
proof -
  have "prefix q ((r @ [a]) @ [b]) \<longleftrightarrow> prefix q (r @ [a]) \<or> q = (r @ [a]) @ [b]"
    unfolding prefix_snoc by blast
  moreover have "prefix q (r @ [a]) \<longleftrightarrow> prefix q r \<or> q = r @ [a]"
    unfolding prefix_snoc by blast
  ultimately show ?thesis by auto
qed

lemma import_paths_cases:
  assumes "import_paths fs start = (fs', res)"
  obtains
    (no_root) e where "find_repo_root fs start = Inl e" "fs' = fs" "res = Inl e"
  | (no_tables) r e where "find_repo_root fs start = Inr r"
      "mkdir fs (r @ [''outputs'', ''tables'']) = Inl e" "fs' = fs" "res = Inl e"
  | (no_figures) r fs1 e where "find_repo_root fs start = Inr r"
      "mkdir fs (r @ [''outputs'', ''tables'']) = Inr fs1"
      "mkdir fs1 (r @ [''outputs'', ''figures'']) = Inl e" "fs' = fs1" "res = Inl e"
  | (created) r fs1 where "find_repo_root fs start = Inr r"
      "mkdir fs (r @ [''outputs'', ''tables'']) = Inr fs1"
      "mkdir fs1 (r @ [''outputs'', ''figures'']) = Inr fs'"
      "res = Inr \<lparr>REPO_ROOT = r, DATA_ROOT = r, OUT_ROOT = r @ [''outputs''],
                   TABLE_DIR = r @ [''outputs'', ''tables''],
                   FIG_DIR = r @ [''outputs'', ''figures'']\<rparr>"
proof (cases "find_repo_root fs start")
  case (Inl e)
  then have "fs' = fs" "res = Inl e" using assms by (simp_all add: import_paths_def)
  with Inl show ?thesis by (rule no_root)
next
  case r: (Inr r)
  show ?thesis
  proof (cases "mkdir fs (r @ [''outputs'', ''tables''])")
    case (Inl e)
    then have "fs' = fs" "res = Inl e" using assms r by (simp_all add: import_paths_def)
    with r Inl show ?thesis by (rule no_tables)
  next
    case t: (Inr fs1)
    show ?thesis
    proof (cases "mkdir fs1 (r @ [''outputs'', ''figures''])")
      case (Inl e)
      then have "fs' = fs1" "res = Inl e" using assms r t by (simp_all add: import_paths_def)
      with r t Inl show ?thesis by (rule no_figures)
    next
      case (Inr fs2)
      then have "fs' = fs2" "res = Inr \<lparr>REPO_ROOT = r, DATA_ROOT = r, OUT_ROOT = r @ [''outputs''],
                   TABLE_DIR = r @ [''outputs'', ''tables''],
                   FIG_DIR = r @ [''outputs'', ''figures'']\<rparr>"
        using assms r t by (simp_all add: import_paths_def)
      with r t Inr show ?thesis by (intro created) simp_all
    qed
  qed
qed


lemma import_paths_files:
  assumes "import_paths fs start = (fs', res)"
  shows "is_file fs' q = is_file fs q"
  using assms
proof (cases rule: import_paths_cases)
  case (no_root e)
  then show ?thesis by simp
next
  case (no_tables r e)
  then show ?thesis by simp
next
  case (no_figures r fs1 e)
  then show ?thesis using mkdir_frame [OF no_figures(2), of q] by simp
next
  case (created r fs1)
  then show ?thesis
    using mkdir_frame [OF created(2), of q] mkdir_frame [OF created(3), of q] by simp
qed

lemma import_paths_dirs:
  assumes "import_paths fs start = (fs', res)"
  shows "is_dir fs' q \<longleftrightarrow> is_dir fs q \<or>
           (\<exists>r. find_repo_root fs start = Inr r \<and> is_dir fs' q \<and>
                (q = r @ [''outputs''] \<or> q = r @ [''outputs'', ''tables''] \<or>
                 q = r @ [''outputs'', ''figures'']))"
  using assms
proof (cases rule: import_paths_cases)
  case (no_root e)
  then show ?thesis by auto
next
  case (no_tables r e)
  then show ?thesis by auto
next
  case (no_figures r fs1 e)
  have "is_dir fs q" if "prefix q r" for q
    using find_repo_root_dirs [OF no_figures(1) that] .
  then show ?thesis
    using mkdir_frame [OF no_figures(2), of q] no_figures(1,4)
    by (auto simp: prefix_append2)
next
  case (created r fs1)
  have "is_dir fs q" if "prefix q r" for q
    using find_repo_root_dirs [OF created(1) that] .
  then show ?thesis
    using mkdir_frame [OF created(2), of q] mkdir_frame [OF created(3), of q] created(1)
    by (auto simp: prefix_append2)
qed

lemma import_paths_module:
  assumes "import_paths fs start = (fs', Inr m)"
  shows "find_repo_root fs start = Inr (REPO_ROOT m) \<and> DATA_ROOT m = REPO_ROOT m \<and>
         OUT_ROOT m = REPO_ROOT m @ [''outputs''] \<and>
         TABLE_DIR m = REPO_ROOT m @ [''outputs'', ''tables''] \<and>
         FIG_DIR m = REPO_ROOT m @ [''outputs'', ''figures''] \<and>
         is_dir fs' (TABLE_DIR m) \<and> is_dir fs' (FIG_DIR m)"
  using assms
proof (cases rule: import_paths_cases)
  case (created r fs1)
  have "is_dir fs1 (r @ [''outputs'', ''tables''])"
    using mkdir_frame [OF created(2), of "r @ [''outputs'', ''tables'']"] by simp
  then have "is_dir fs' (r @ [''outputs'', ''tables''])"
    using mkdir_frame [OF created(3), of "r @ [''outputs'', ''tables'']"] by simp
  moreover have "is_dir fs' (r @ [''outputs'', ''figures''])"
    using mkdir_frame [OF created(3), of "r @ [''outputs'', ''figures'']"] by simp
  ultimately show ?thesis using created(1,4) by simp
qed simp_all


section \<open>Properties of the plotting script\<close>

lemma savefig_name_last:
  "last (snd (get_title_and_savefig a b v c d e f g h i)) = CHR ''g''"
  by (simp add: get_title_and_savefig_def)

lemma construct_filename_last:
  "construct_filename a b v c d e f g h i = Inr n \<Longrightarrow> n \<noteq> [] \<and> last n = CHR ''c''"
  by (auto simp: construct_filename_def Let_def split: if_splits)

lemma FUA_SHP_last: "last FUA_SHP = CHR ''p''"
  by (simp add: FUA_SHP_def)


lemma filename_last: "filename c = Inr fn \<Longrightarrow> fn \<noteq> [] \<and> last fn = CHR ''c''"
  unfolding filename_def by (rule construct_filename_last)

lemma title_savefig_last: "last (snd (title_savefig c)) = CHR ''g''"
  unfolding title_savefig_def by (rule savefig_name_last)

lemma title_savefig_nonempty: "snd (title_savefig c) \<noteq> []"
  by (simp add: title_savefig_def get_title_and_savefig_def)

lemma plot_steps_overlay:
  "plot_steps c g (Some s, True) =
     [Figure, Axes, Gridlines, Pcolormesh g, BoundaryPlot s,
      Colorbar (var_name @ '' (days)''), SetExtent g, Title (fst (title_savefig c)),
      XLabel ''Longitude [degrees]'', YLabel ''Latitude [degrees]'',
      Savefig (snd (title_savefig c)), Show]"
  by (simp add: plot_steps_def split: prod.splits)

lemma plot_steps_plain:
  "shape = None \<or> \<not> found \<Longrightarrow>
   plot_steps c g (shape, found) =
     [Figure, Axes, Gridlines, Pcolormesh g,
      Colorbar (var_name @ '' (days)''), SetExtent g, Title (fst (title_savefig c)),
      XLabel ''Longitude [degrees]'', YLabel ''Latitude [degrees]'',
      Savefig (snd (title_savefig c)), Show]"
  by (auto simp: plot_steps_def split: prod.splits)

lemma plot_steps_cases:
  obtains (overlay) s where "fua = (Some s, True)"
  | (plain) shape found where "fua = (shape, found)" "shape = None \<or> \<not> found"
proof (cases fua)
  case (Pair shape found)
  show ?thesis
  proof (cases "shape = None \<or> \<not> found")
    case True
    with Pair show ?thesis by (rule plain)
  next
    case False
    then obtain s where "shape = Some s" "found" by auto
    with Pair have "fua = (Some s, True)" by simp
    then show ?thesis by (rule overlay)
  qed
qed

lemma plot_steps_writes: "writes (plot_steps c g fua) = [snd (title_savefig c)]"
proof (cases fua rule: plot_steps_cases)
  case (overlay s)
  then show ?thesis by (simp add: plot_steps_overlay writes_def)
next
  case (plain shape found)
  then show ?thesis by (simp add: plot_steps_plain writes_def)
qed

lemma plot_steps_reads: "reads (plot_steps c g fua) = []"
proof (cases fua rule: plot_steps_cases)
  case (overlay s)
  then show ?thesis by (simp add: plot_steps_overlay reads_def)
next
  case (plain shape found)
  then show ?thesis by (simp add: plot_steps_plain reads_def)
qed

lemma plot_steps_no_overlay:
  "filter (\<lambda>ev. \<not> is_overlay ev) (plot_steps c g fua) = plot_steps c g (None, False)"
proof (cases fua rule: plot_steps_cases)
  case (overlay s)
  then show ?thesis by (simp add: plot_steps_overlay plot_steps_plain is_overlay_def)
next
  case (plain shape found)
  then show ?thesis by (simp add: plot_steps_plain is_overlay_def)
qed

lemma plot_map_cases:
  obtains
    (bad_name) e where "filename c = Inl e" "plot_map W c = ([], Some e)"
  | (no_dataset) fn e where "filename c = Inr fn" "open_dataset W (base c @ ''/'' @ fn) = Inl e"
      "plot_map W c = ([ReadDataset (base c @ ''/'' @ fn)], Some e)"
  | (no_data) fn ds e where "filename c = Inr fn" "open_dataset W (base c @ ''/'' @ fn) = Inr ds"
      "prepare_data W ds = Inl e" "plot_map W c = ([ReadDataset (base c @ ''/'' @ fn)], Some e)"
  | (plotted) fn ds g where "filename c = Inr fn" "open_dataset W (base c @ ''/'' @ fn) = Inr ds"
      "prepare_data W ds = Inr g"
      "plot_map W c = ([ReadDataset (base c @ ''/'' @ fn), ReadShapefile FUA_SHP]
                        @ plot_steps c g (load_fua W), None)"
proof (cases "filename c")
  case (Inl e)
  then have "plot_map W c = ([], Some e)" by (simp add: plot_map_def)
  with Inl show ?thesis by (rule bad_name)
next
  case f: (Inr fn)
  show ?thesis
  proof (cases "open_dataset W (base c @ ''/'' @ fn)")
    case (Inl e)
    then have "plot_map W c = ([ReadDataset (base c @ ''/'' @ fn)], Some e)"
      using f by (simp add: plot_map_def)
    with f Inl show ?thesis by (rule no_dataset)
  next
    case d: (Inr ds)
    show ?thesis
    proof (cases "prepare_data W ds")
      case (Inl e)
      then have "plot_map W c = ([ReadDataset (base c @ ''/'' @ fn)], Some e)"
        using f d by (simp add: plot_map_def)
      with f d Inl show ?thesis by (rule no_data)
    next
      case (Inr g)
      then have "plot_map W c = ([ReadDataset (base c @ ''/'' @ fn), ReadShapefile FUA_SHP]
                        @ plot_steps c g (load_fua W), None)"
        using f d by (simp add: plot_map_def)
      with f d Inr show ?thesis by (rule plotted)
    qed
  qed
qed

lemma plot_map_writes:
  "writes (fst (plot_map W c)) = (if snd (plot_map W c) = None then [snd (title_savefig c)] else [])"
proof (cases rule: plot_map_cases [of c W])
  case (bad_name e)
  then show ?thesis by (simp add: writes_def)
next
  case (no_dataset fn e)
  then show ?thesis by (simp add: writes_def)
next
  case (no_data fn ds e)
  then show ?thesis by (simp add: writes_def)
next
  case (plotted fn ds g)
  have "writes [ReadDataset (base c @ ''/'' @ fn), ReadShapefile FUA_SHP :: 'b event] = []"
    by (simp add: writes_def)
  then show ?thesis
    using plotted(4) plot_steps_writes [of c g "load_fua W"]
    by (simp add: writes_def)
qed

lemma plot_map_reads:
  "set (reads (fst (plot_map W c))) \<subseteq>
     (case filename c of Inl e \<Rightarrow> {} | Inr fn \<Rightarrow> {base c @ ''/'' @ fn, FUA_SHP})"
proof (cases rule: plot_map_cases [of c W])
  case (bad_name e)
  then show ?thesis by (simp add: reads_def)
next
  case (no_dataset fn e)
  then show ?thesis by (simp add: reads_def)
next
  case (no_data fn ds e)
  then show ?thesis by (simp add: reads_def)
next
  case (plotted fn ds g)
  then show ?thesis
    using plot_steps_reads [of c g "load_fua W"]
    by (simp add: reads_def)
qed

lemma savefig_not_input:
  "snd (title_savefig c) \<noteq> FUA_SHP"
  "filename c = Inr fn \<Longrightarrow> snd (title_savefig c) \<noteq> base c @ ''/'' @ fn"
proof -
  show "snd (title_savefig c) \<noteq> FUA_SHP"
  proof
    assume "snd (title_savefig c) = FUA_SHP"
    then have "last (snd (title_savefig c)) = last FUA_SHP" by simp
    then show False by (simp add: title_savefig_last FUA_SHP_last)
  qed
  show "snd (title_savefig c) \<noteq> base c @ ''/'' @ fn" if "filename c = Inr fn"
  proof
    assume "snd (title_savefig c) = base c @ ''/'' @ fn"
    then have "last (snd (title_savefig c)) = last (base c @ ''/'' @ fn)" by simp
    then show False using filename_last [OF that] by (simp add: title_savefig_last)
  qed
qed

lemma plot_map_reads_writes:
  "set (writes (fst (plot_map W c))) \<inter> set (reads (fst (plot_map W c))) = {}"
proof (cases "filename c")
  case (Inl e)
  then show ?thesis using plot_map_reads [of W c] by simp
next
  case (Inr fn)
  then have "set (reads (fst (plot_map W c))) \<subseteq> {base c @ ''/'' @ fn, FUA_SHP}"
    using plot_map_reads [of W c] by simp
  moreover have "set (writes (fst (plot_map W c))) \<subseteq> {snd (title_savefig c)}"
    by (auto simp: plot_map_writes)
  ultimately show ?thesis using savefig_not_input(1) [of c] savefig_not_input(2) [OF Inr]
    by blast
qed


text \<open>
  C7. When reading the FUA shapefile raises, in a run that got as far as the FUA block,
  the exception is caught, \<open>fua_found\<close> is \<open>False\<close>, and the run goes on through every
  plotting step to \<open>savefig\<close> and \<open>show\<close> and ends without exception. Its steps are those of
  the run with any other outcome \<open>r\<close> of the read, the boundary overlay left out.
\<close>

theorem fua_read_failure_keeps_plotting:
  assumes "read_file W FUA_SHP = Inl e"
    and "filename c = Inr fn"
    and "open_dataset W (base c @ ''/'' @ fn) = Inr ds"
    and "prepare_data W ds = Inr g"
  shows "load_fua W = (None, False) \<and>
         plot_map W c =
           ([ReadDataset (base c @ ''/'' @ fn), ReadShapefile FUA_SHP,
             Figure, Axes, Gridlines, Pcolormesh g,
             Colorbar (var_name @ '' (days)''), SetExtent g, Title (fst (title_savefig c)),
             XLabel ''Longitude [degrees]'', YLabel ''Latitude [degrees]'',
             Savefig (snd (title_savefig c)), Show], None) \<and>
         fst (plot_map W c) =
           filter (\<lambda>ev. \<not> is_overlay ev) (fst (plot_map (W\<lparr>read_file := r\<rparr>) c))"
proof -
  have fua: "load_fua W = (None, False)" using assms(1) by (simp add: load_fua_def)
  have run: "plot_map W c =
      ([ReadDataset (base c @ ''/'' @ fn), ReadShapefile FUA_SHP] @ plot_steps c g (None, False), None)"
    using assms(2-4) fua by (simp add: plot_map_def)
  have other: "plot_map (W\<lparr>read_file := r\<rparr>) c =
      ([ReadDataset (base c @ ''/'' @ fn), ReadShapefile FUA_SHP]
         @ plot_steps c g (load_fua (W\<lparr>read_file := r\<rparr>)), None)"
    using assms(2-4) by (simp add: plot_map_def)
  have "filter (\<lambda>ev. \<not> is_overlay ev) (fst (plot_map (W\<lparr>read_file := r\<rparr>) c)) =
      [ReadDataset (base c @ ''/'' @ fn), ReadShapefile FUA_SHP] @ plot_steps c g (None, False)"
    unfolding other by (simp add: plot_steps_no_overlay) (simp add: is_overlay_def)
  then show ?thesis using fua run by (simp add: plot_steps_plain)
qed

lemma ex_filename: "filename ex_config = Inr ''athens_era5-2km_cdd_19892018.nc''"
  by code_simp

lemma ex_title_savefig:
  "title_savefig ex_config =
     (''Average Map of CDD from 1989 to 2018'' @ [CHR 0x0A] @ ''over Athens in era5-2km'',
      ''Athens_CDD_era5-2km_1989-2018.png'')"
  by code_simp

theorem fua_read_failure_keeps_plotting_witness:
  "read_file no_shapefile_world FUA_SHP = Inl FileNotFoundError \<and>
   load_fua no_shapefile_world = (None, False) \<and>
   plot_map no_shapefile_world ex_config =
     ([ReadDataset (base ex_config @ ''/'' @ ''athens_era5-2km_cdd_19892018.nc''),
       ReadShapefile FUA_SHP, Figure, Axes, Gridlines, Pcolormesh 0,
       Colorbar ''CDD (days)'', SetExtent 0,
       Title (''Average Map of CDD from 1989 to 2018'' @ [CHR 0x0A] @ ''over Athens in era5-2km''),
       XLabel ''Longitude [degrees]'', YLabel ''Latitude [degrees]'',
       Savefig ''Athens_CDD_era5-2km_1989-2018.png'', Show], None) \<and>
   fst (plot_map no_shapefile_world ex_config) =
     filter (\<lambda>ev. \<not> is_overlay ev) (fst (plot_map ex_world ex_config))"
proof -
  have r: "read_file no_shapefile_world FUA_SHP = Inl FileNotFoundError"
    by (simp add: no_shapefile_world_def)
  have o: "open_dataset no_shapefile_world (base ex_config @ ''/'' @ ''athens_era5-2km_cdd_19892018.nc'') = Inr 0"
    by (simp add: no_shapefile_world_def ex_world_def)
  have p: "prepare_data no_shapefile_world 0 = Inr 0"
    by (simp add: no_shapefile_world_def ex_world_def)
  have w: "no_shapefile_world\<lparr>read_file := read_file ex_world\<rparr> = ex_world"
    by (simp add: no_shapefile_world_def ex_world_def)
  note t = fua_read_failure_keeps_plotting [OF r ex_filename o p, of "read_file ex_world", unfolded w]
  have c1: "load_fua no_shapefile_world = (None, False)"
    using t by (rule conjunct1)
  have c2: "plot_map no_shapefile_world ex_config =
     ([ReadDataset (base ex_config @ ''/'' @ ''athens_era5-2km_cdd_19892018.nc''),
       ReadShapefile FUA_SHP, Figure, Axes, Gridlines, Pcolormesh 0,
       Colorbar ''CDD (days)'', SetExtent 0,
       Title (''Average Map of CDD from 1989 to 2018'' @ [CHR 0x0A] @ ''over Athens in era5-2km''),
       XLabel ''Longitude [degrees]'', YLabel ''Latitude [degrees]'',
       Savefig ''Athens_CDD_era5-2km_1989-2018.png'', Show], None)"
    using t [THEN conjunct2, THEN conjunct1] by (simp add: ex_title_savefig var_name_def)
  have c3: "fst (plot_map no_shapefile_world ex_config) =
     filter (\<lambda>ev. \<not> is_overlay ev) (fst (plot_map ex_world ex_config))"
    using t [THEN conjunct2, THEN conjunct2] .
  show ?thesis using r c1 c2 c3 by (intro conjI)
qed

text \<open>
  C5 fails on the code. With the pilot area set to Birmingham and a shapefile that holds
  both areas, the map of Birmingham is overlaid with the boundary of \<open>Athina\<close>: the name
  in the selection is a literal, not the configured pilot area.
\<close>

theorem fua_selection_ignores_pilotarea:
  "load_fua ex_world =
     (Some [\<lparr>FUA_NAME = ''Athina'', geometry = [(23, 37), (24, 37), (24, 38)]\<rparr>], True) \<and>
   fst (plot_map ex_world (ex_config\<lparr>pilotarea := ''Birmingham''\<rparr>)) =
     [ReadDataset ''/work/cmcc/gf27821/CARMINE/CARMINE-T2.4/Birmingham/INDICATORS/birmingham_era5-2km_cdd_19892018.nc'',
      ReadShapefile FUA_SHP, Figure, Axes, Gridlines, Pcolormesh 0,
      BoundaryPlot [\<lparr>FUA_NAME = ''Athina'', geometry = [(23, 37), (24, 37), (24, 38)]\<rparr>],
      Colorbar ''CDD (days)'', SetExtent 0,
      Title (''Average Map of CDD from 1989 to 2018'' @ [CHR 0x0A] @ ''over Birmingham in era5-2km''),
      XLabel ''Longitude [degrees]'', YLabel ''Latitude [degrees]'',
      Savefig ''Birmingham_CDD_era5-2km_1989-2018.png'', Show]"
proof -
  have fua: "load_fua ex_world =
     (Some [\<lparr>FUA_NAME = ''Athina'', geometry = [(23, 37), (24, 37), (24, 38)]\<rparr>], True)"
    by (simp add: load_fua_def ex_world_def ex_gdf_def)
  have fn: "filename (ex_config\<lparr>pilotarea := ''Birmingham''\<rparr>) = Inr ''birmingham_era5-2km_cdd_19892018.nc''"
    by code_simp
  have ts: "title_savefig (ex_config\<lparr>pilotarea := ''Birmingham''\<rparr>) =
     (''Average Map of CDD from 1989 to 2018'' @ [CHR 0x0A] @ ''over Birmingham in era5-2km'',
      ''Birmingham_CDD_era5-2km_1989-2018.png'')"
    by code_simp
  have b: "base (ex_config\<lparr>pilotarea := ''Birmingham''\<rparr>) =
     ''/work/cmcc/gf27821/CARMINE/CARMINE-T2.4/Birmingham/INDICATORS''"
    by (simp add: base_def ex_config_def)
  have "plot_map ex_world (ex_config\<lparr>pilotarea := ''Birmingham''\<rparr>) =
     ([ReadDataset (base (ex_config\<lparr>pilotarea := ''Birmingham''\<rparr>) @ ''/'' @ ''birmingham_era5-2km_cdd_19892018.nc''),
       ReadShapefile FUA_SHP]
      @ plot_steps (ex_config\<lparr>pilotarea := ''Birmingham''\<rparr>) 0 (load_fua ex_world), None)"
    by (simp add: plot_map_def fn) (simp add: ex_world_def)
  then show ?thesis
    unfolding fua by (simp add: plot_steps_overlay ts b var_name_def)
qed

section \<open>What a run writes\<close>

text \<open>
  C10. A run of the plotting script writes one file, the PNG named by
  \<open>get_title_and_savefig\<close>, and only when it reaches \<open>savefig\<close>; that file is none of the
  files the run reads (the dataset and the shapefile). Importing the paths module leaves
  every file as it was and adds no directory but \<open>outputs\<close>, \<open>outputs/tables\<close> and
  \<open>outputs/figures\<close> under the repository root.
\<close>

theorem pipeline_writes_only_outputs:
  assumes "import_paths fs start = (fs', res)"
  shows "writes (fst (plot_map W c)) =
           (if snd (plot_map W c) = None then [snd (title_savefig c)] else []) \<and>
         set (writes (fst (plot_map W c))) \<inter> set (reads (fst (plot_map W c))) = {} \<and>
         is_file fs' q = is_file fs q \<and>
         (is_dir fs' q \<longleftrightarrow>
            is_dir fs q \<or>
            (\<exists>r. find_repo_root fs start = Inr r \<and> is_dir fs' q \<and>
                 (q = r @ [''outputs''] \<or> q = r @ [''outputs'', ''tables''] \<or>
                  q = r @ [''outputs'', ''figures''])))"
  using plot_map_writes [of W c] plot_map_reads_writes [of W c]
    import_paths_files [OF assms, of q] import_paths_dirs [OF assms, of q]
  by (intro conjI)

lemma ex_import:
  "import_paths ex_fs [''repo'', ''Athens'', ''INDICATORS''] =
     (Dir [(''repo'', Dir
        [(''.git'', Dir []),
         (''outputs'', Dir [(''INDICATORS'', Dir [(''cdd.nc'', File)]),
                            (''tables'', Dir []), (''figures'', Dir [])]),
         (''Athens'', Dir [(''INDICATORS'', Dir [(''cdd.nc'', File), (''sub'', Dir [(''txx.nc'', File)])])]),
         (''Birmingham'', Dir [(''data'', Dir [(''INDICATORS'', Dir [(''txx.nc'', File)])]),
                               (''INDICATORS'', File)])])],
      Inr \<lparr>REPO_ROOT = [''repo''], DATA_ROOT = [''repo''], OUT_ROOT = [''repo'', ''outputs''],
           TABLE_DIR = [''repo'', ''outputs'', ''tables''],
           FIG_DIR = [''repo'', ''outputs'', ''figures'']\<rparr>)"
  by code_simp

theorem pipeline_writes_only_outputs_witness:
  "writes (fst (plot_map ex_world ex_config)) = [''Athens_CDD_era5-2km_1989-2018.png''] \<and>
   reads (fst (plot_map ex_world ex_config)) =
     [''/work/cmcc/gf27821/CARMINE/CARMINE-T2.4/Athens/INDICATORS/athens_era5-2km_cdd_19892018.nc'',
      FUA_SHP] \<and>
   find_repo_root ex_fs [''repo'', ''Athens'', ''INDICATORS''] = Inr [''repo''] \<and>
   is_dir (fst (import_paths ex_fs [''repo'', ''Athens'', ''INDICATORS''])) [''repo'', ''outputs'', ''tables''] \<and>
   \<not> is_dir ex_fs [''repo'', ''outputs'', ''tables''] \<and>
   is_file (fst (import_paths ex_fs [''repo'', ''Athens'', ''INDICATORS'']))
       [''repo'', ''Athens'', ''INDICATORS'', ''cdd.nc'']
     = is_file ex_fs [''repo'', ''Athens'', ''INDICATORS'', ''cdd.nc'']"
proof -
  have none: "snd (plot_map ex_world ex_config) = None" by code_simp
  have rd: "reads (fst (plot_map ex_world ex_config)) =
     [''/work/cmcc/gf27821/CARMINE/CARMINE-T2.4/Athens/INDICATORS/athens_era5-2km_cdd_19892018.nc'',
      FUA_SHP]" by code_simp
  have fr: "find_repo_root ex_fs [''repo'', ''Athens'', ''INDICATORS''] = Inr [''repo'']" by code_simp
  have d1: "is_dir (fst (import_paths ex_fs [''repo'', ''Athens'', ''INDICATORS''])) [''repo'', ''outputs'', ''tables'']"
    unfolding ex_import by code_simp
  have d0: "\<not> is_dir ex_fs [''repo'', ''outputs'', ''tables'']" by code_simp
  note t = pipeline_writes_only_outputs [OF ex_import, of ex_world ex_config
      "[''repo'', ''Athens'', ''INDICATORS'', ''cdd.nc'']"]
  have w: "writes (fst (plot_map ex_world ex_config)) = [''Athens_CDD_era5-2km_1989-2018.png'']"
    using t [THEN conjunct1] none by (simp add: ex_title_savefig)
  have f: "is_file (fst (import_paths ex_fs [''repo'', ''Athens'', ''INDICATORS'']))
       [''repo'', ''Athens'', ''INDICATORS'', ''cdd.nc'']
     = is_file ex_fs [''repo'', ''Athens'', ''INDICATORS'', ''cdd.nc'']"
    unfolding ex_import fst_conv using t [THEN conjunct2, THEN conjunct2, THEN conjunct1] .
  show ?thesis using w rd fr d1 d0 f by (intro conjI)
qed


section \<open>Failure recovery\<close>

lemma seq_raises: "seq x f = Inl e \<longleftrightarrow> x = Inl e \<or> (\<exists>a. x = Inr a \<and> f a = Inl e)"
  by (cases x) (simp_all add: seq_def)

lemma seq_returns: "seq x f = Inr b \<longleftrightarrow> (\<exists>a. x = Inr a \<and> f a = Inr b)"
  by (cases x) (simp_all add: seq_def)

lemma spi_recovery:
  "(resample L AggMean pr = Inl e \<longrightarrow> spi L pr freq = Inl e) \<and>
   (resample L AggMean pr = Inr pr_daily \<longrightarrow>
      (spi L pr freq = Inr EmptyDataset
         \<longleftrightarrow> xc_standardized_precipitation_index L pr_daily freq = Inl FitError) \<and>
      (xc_standardized_precipitation_index L pr_daily freq = Inr da
         \<longrightarrow> spi L pr freq = Inr (Index da)) \<and>
      (xc_standardized_precipitation_index L pr_daily freq = Inl e \<and> e \<noteq> FitError
         \<longrightarrow> spi L pr freq = Inl e))"
  by (auto simp: spi_def split: sum.splits)

lemma load_fua_recovery:
  "load_fua W = (None, False) \<longleftrightarrow>
     (\<exists>e. read_file W FUA_SHP = Inl e) \<or>
     (\<exists>gdf e. read_file W FUA_SHP = Inr gdf \<and> to_crs W gdf 4326 = Inl e)"
  by (auto simp: load_fua_def Let_def split: sum.splits)

lemma precipitation_indicators_seq:
  "wetdays L pr th freq = seq (resample L AggMean pr) (\<lambda>pr_daily. xc_wetdays L pr_daily th freq) \<and>
   cwd L pr th freq =
     seq (resample L AggMean pr) (\<lambda>pr_daily. xc_maximum_consecutive_wet_days L pr_daily th freq) \<and>
   cdd L pr th freq =
     seq (resample L AggMean pr) (\<lambda>pr_daily. xc_maximum_consecutive_dry_days L pr_daily th freq) \<and>
   prcptot L pr freq = seq (resample L AggMean pr) (\<lambda>pr_daily. xc_precip_accumulation L pr_daily freq) \<and>
   rx1day L pr freq =
     seq (resample L AggMean pr) (\<lambda>pr_daily. xc_max_1day_precipitation_amount L pr_daily freq)"
  by (simp add: wetdays_def cwd_def cdd_def prcptot_def rx1day_def seq_def)

lemma temperature_indicators_seq:
  "txx L tasmax freq =
     seq (resample L AggMax tasmax) (\<lambda>tasmax_daily.
     seq (xc_tx_max L tasmax_daily freq) (\<lambda>da. convert_units_to L da ''degC'')) \<and>
   txn L tasmax freq =
     seq (resample L AggMax tasmax) (\<lambda>tasmax_daily.
     seq (xc_tx_min L tasmax_daily freq) (\<lambda>da. convert_units_to L da ''degC'')) \<and>
   hot_spell_frequency L tasmax hot_spell_type freq =
     seq (resample L AggMax tasmax) (\<lambda>tasmax_daily.
     seq (subscript hot_spell hot_spell_type) (\<lambda>h.
     seq (xc_hot_spell_frequency L tasmax_daily (thresh h) (window h) freq) (\<lambda>da.
       Inr (da\<lparr>attrs := (attrs da)(''long_name'' \<mapsto> name h)\<rparr>)))) \<and>
   tropical_nights L tasmin freq =
     seq (resample L AggMax tasmin) (\<lambda>tasmin_daily. xc_tropical_nights L tasmin_daily freq) \<and>
   growing_season_length L tas freq =
     seq (resample L AggMean tas) (\<lambda>tas_daily.
     seq (xc_growing_season_length L tas_daily freq) (\<lambda>da.
       Inr (da\<lparr>attrs := (attrs da)(''long_name'' \<mapsto> ''Growing season length'')\<rparr>))) \<and>
   gdd_baker L tasmax tasmin tbase freq =
     seq (resample L AggMax tasmax) (\<lambda>tasmax_daily0.
     seq (convert_units_to L tasmax_daily0 ''degC'') (\<lambda>tasmax_daily.
     seq (resample L AggMin tasmin) (\<lambda>tasmin_daily0.
     seq (convert_units_to L tasmin_daily0 ''degC'') (\<lambda>tasmin_daily.
     seq (D_array tasmax_daily tasmin_daily tbase) (\<lambda>Ds.
       Inr \<lparr>points = resample_YS_sum Ds, attrs = gdd_attrs\<rparr>)))))"
  by (simp add: txx_def txn_def hot_spell_frequency_def tropical_nights_def
      growing_season_length_def gdd_baker_def seq_def subscript_def
      split: sum.splits option.splits)

lemma scripts_seq:
  "snd (plot_map W c) =
     (case seq (filename c) (\<lambda>fn.
           seq (open_dataset W (base c @ ''/'' @ fn)) (\<lambda>ds. prepare_data W ds)) of
        Inl e \<Rightarrow> Some e | Inr g \<Rightarrow> None) \<and>
   snd (import_paths fs start) =
     seq (find_repo_root fs start) (\<lambda>r.
     seq (mkdir fs (r @ [''outputs'', ''tables''])) (\<lambda>fs1.
     seq (mkdir fs1 (r @ [''outputs'', ''figures''])) (\<lambda>fs2.
       Inr \<lparr>REPO_ROOT = r, DATA_ROOT = r, OUT_ROOT = r @ [''outputs''],
            TABLE_DIR = r @ [''outputs'', ''tables''],
            FIG_DIR = r @ [''outputs'', ''figures'']\<rparr>)))"
  by (simp add: plot_map_def import_paths_def seq_def split: sum.splits)

text \<open>
  C3, as the code has it. The repository has two failure-recovery cases. \<open>spi\<close> returns
  the empty dataset exactly when the index computation raises \<open>FitError\<close>, returns the
  computed index when it returns, and lets every other exception pass. The FUA block of
  the plotting script turns every exception of reading or reprojecting the shapefile into
  \<open>fua_shape = None\<close>, \<open>fua_found = False\<close>. Every other operation is plain sequencing of its
  steps: an exception of a step is the exception of the operation.
\<close>

theorem failure_recovery_cases:
  "((resample L AggMean pr = Inl e \<longrightarrow> spi L pr freq = Inl e) \<and>
    (resample L AggMean pr = Inr pr_daily \<longrightarrow>
      (spi L pr freq = Inr EmptyDataset
         \<longleftrightarrow> xc_standardized_precipitation_index L pr_daily freq = Inl FitError) \<and>
      (xc_standardized_precipitation_index L pr_daily freq = Inr da
         \<longrightarrow> spi L pr freq = Inr (Index da)) \<and>
      (xc_standardized_precipitation_index L pr_daily freq = Inl e \<and> e \<noteq> FitError
         \<longrightarrow> spi L pr freq = Inl e))) \<and>
   (load_fua W = (None, False) \<longleftrightarrow>
     (\<exists>e. read_file W FUA_SHP = Inl e) \<or>
     (\<exists>gdf e. read_file W FUA_SHP = Inr gdf \<and> to_crs W gdf 4326 = Inl e)) \<and>
   (wetdays L pr th freq = seq (resample L AggMean pr) (\<lambda>pr_daily. xc_wetdays L pr_daily th freq) \<and>
    cwd L pr th freq =
      seq (resample L AggMean pr) (\<lambda>pr_daily. xc_maximum_consecutive_wet_days L pr_daily th freq) \<and>
    cdd L pr th freq =
      seq (resample L AggMean pr) (\<lambda>pr_daily. xc_maximum_consecutive_dry_days L pr_daily th freq) \<and>
    prcptot L pr freq = seq (resample L AggMean pr) (\<lambda>pr_daily. xc_precip_accumulation L pr_daily freq) \<and>
    rx1day L pr freq =
      seq (resample L AggMean pr) (\<lambda>pr_daily. xc_max_1day_precipitation_amount L pr_daily freq)) \<and>
   (txx L tasmax freq =
      seq (resample L AggMax tasmax) (\<lambda>tasmax_daily.
      seq (xc_tx_max L tasmax_daily freq) (\<lambda>da. convert_units_to L da ''degC'')) \<and>
    txn L tasmax freq =
      seq (resample L AggMax tasmax) (\<lambda>tasmax_daily.
      seq (xc_tx_min L tasmax_daily freq) (\<lambda>da. convert_units_to L da ''degC'')) \<and>
    hot_spell_frequency L tasmax hot_spell_type freq =
      seq (resample L AggMax tasmax) (\<lambda>tasmax_daily.
      seq (subscript hot_spell hot_spell_type) (\<lambda>h.
      seq (xc_hot_spell_frequency L tasmax_daily (thresh h) (window h) freq) (\<lambda>da.
        Inr (da\<lparr>attrs := (attrs da)(''long_name'' \<mapsto> name h)\<rparr>)))) \<and>
    tropical_nights L tasmin freq =
      seq (resample L AggMax tasmin) (\<lambda>tasmin_daily. xc_tropical_nights L tasmin_daily freq) \<and>
    growing_season_length L tas freq =
      seq (resample L AggMean tas) (\<lambda>tas_daily.
      seq (xc_growing_season_length L tas_daily freq) (\<lambda>da.
        Inr (da\<lparr>attrs := (attrs da)(''long_name'' \<mapsto> ''Growing season length'')\<rparr>))) \<and>
    gdd_baker L tasmax tasmin tbase freq =
      seq (resample L AggMax tasmax) (\<lambda>tasmax_daily0.
      seq (convert_units_to L tasmax_daily0 ''degC'') (\<lambda>tasmax_daily.
      seq (resample L AggMin tasmin) (\<lambda>tasmin_daily0.
      seq (convert_units_to L tasmin_daily0 ''degC'') (\<lambda>tasmin_daily.
      seq (D_array tasmax_daily tasmin_daily tbase) (\<lambda>Ds.
        Inr \<lparr>points = resample_YS_sum Ds, attrs = gdd_attrs\<rparr>)))))) \<and>
   (snd (plot_map W c) =
      (case seq (filename c) (\<lambda>fn.
            seq (open_dataset W (base c @ ''/'' @ fn)) (\<lambda>ds. prepare_data W ds)) of
         Inl e \<Rightarrow> Some e | Inr g \<Rightarrow> None) \<and>
    snd (import_paths fs start) =
      seq (find_repo_root fs start) (\<lambda>r.
      seq (mkdir fs (r @ [''outputs'', ''tables''])) (\<lambda>fs1.
      seq (mkdir fs1 (r @ [''outputs'', ''figures''])) (\<lambda>fs2.
        Inr \<lparr>REPO_ROOT = r, DATA_ROOT = r, OUT_ROOT = r @ [''outputs''],
             TABLE_DIR = r @ [''outputs'', ''tables''],
             FIG_DIR = r @ [''outputs'', ''figures'']\<rparr>)))) \<and>
   (seq x f = Inl e' \<longleftrightarrow> x = Inl e' \<or> (\<exists>a. x = Inr a \<and> f a = Inl e'))"
  by (rule conjI [OF spi_recovery conjI [OF load_fua_recovery
        conjI [OF precipitation_indicators_seq conjI [OF temperature_indicators_seq
        conjI [OF scripts_seq seq_raises]]]]])


theorem failure_recovery_cases_witness:
  "resample fit_error_lib AggMean ex_pr = Inr ex_pr_daily \<and>
   xc_standardized_precipitation_index fit_error_lib ex_pr_daily ''MS'' = Inl FitError \<and>
   spi fit_error_lib ex_pr ''MS'' = Inr EmptyDataset \<and>
   read_file no_shapefile_world FUA_SHP = Inl FileNotFoundError \<and>
   load_fua no_shapefile_world = (None, False)"
proof -
  have r: "resample fit_error_lib AggMean ex_pr = Inr ex_pr_daily"
    by (simp add: fit_error_lib_def example_lib_def xr_resample_def ex_pr_def ex_pr_daily_def
        agg_apply_def)
  have x: "xc_standardized_precipitation_index fit_error_lib ex_pr_daily ''MS'' = Inl FitError"
    by (simp add: fit_error_lib_def)
  have f: "read_file no_shapefile_world FUA_SHP = Inl FileNotFoundError"
    by (simp add: no_shapefile_world_def)
  note t = failure_recovery_cases [where L = fit_error_lib and pr = ex_pr
      and pr_daily = ex_pr_daily and freq = "''MS''" and W = no_shapefile_world]
  have s: "spi fit_error_lib ex_pr ''MS'' = Inr EmptyDataset"
    using t [THEN conjunct1, THEN conjunct2] r x by blast
  have l: "load_fua no_shapefile_world = (None, False)"
    using t [THEN conjunct2, THEN conjunct1] f by blast
  show ?thesis using r x s f l by (intro conjI)
qed

text \<open>
  C3 as stated fails: the plotting script is a second place that catches an exception and
  goes on with a fallback. With the shapefile missing, the read raises, the FUA block
  yields \<open>(None, False)\<close>, and the run ends without exception, the map saved.
\<close>

theorem plot_script_recovery_counterexample:
  "read_file no_shapefile_world FUA_SHP = Inl FileNotFoundError \<and>
   load_fua no_shapefile_world = (None, False) \<and>
   snd (plot_map no_shapefile_world ex_config) = None \<and>
   writes (fst (plot_map no_shapefile_world ex_config)) = [''Athens_CDD_era5-2km_1989-2018.png'']"
proof -
  have f: "read_file no_shapefile_world FUA_SHP = Inl FileNotFoundError"
    by (simp add: no_shapefile_world_def)
  have l: "load_fua no_shapefile_world = (None, False)"
    using f by (simp add: load_fua_def)
  have n: "snd (plot_map no_shapefile_world ex_config) = None" by code_simp
  have w: "writes (fst (plot_map no_shapefile_world ex_config)) = [''Athens_CDD_era5-2km_1989-2018.png'']"
    by code_simp
  show ?thesis using f l n w by (intro conjI)
qed

end
